theory Spec2Isabelle
  imports Main "HOL-Library.Sublist"
begin

section \<open>Terraform remote-state retrieval and resource indexing\<close>

text \<open>
  A shallow embedding of the Terraform backend code of the repository
  (\<^verbatim>\<open>Substitution\<close>, \<^verbatim>\<open>Options\<close>, \<^verbatim>\<open>S3Backend.Download\<close>,
  \<^verbatim>\<open>TerraformBackends.Verify\<close>, \<^verbatim>\<open>Pull\<close>, \<^verbatim>\<open>Load\<close> and
  \<^verbatim>\<open>LoadStateFromFile\<close>).  Go strings are byte sequences: a \<^typ>\<open>string\<close> here is the
  list of the bytes.  A Go map is a partial function; where the code ranges over a map the
  order of the visit is an explicit argument, because Go leaves it unspecified.
\<close>

subsection \<open>Library functions of Go used by the code\<close>

text \<open>
  \<^verbatim>\<open>utf8.DecodeRuneInString\<close>: the width in bytes of the first UTF-8 sequence of a
  string; an invalid or truncated sequence has width 1, the empty string width 0.
\<close>

definition rune_width :: "string \<Rightarrow> nat" where
  "rune_width s =
     (case s of
        [] \<Rightarrow> 0
      | c0 # _ \<Rightarrow>
          let b0 = (of_char c0 :: nat) in
          if b0 < 0x80 then 1
          else if b0 < 0xC2 \<or> 0xF4 < b0 then 1
          else
            let sz = (if b0 < 0xE0 then 2 else if b0 < 0xF0 then 3 else (4::nat));
                lo = (if b0 = 0xE0 then 0xA0 else if b0 = 0xF0 then 0x90 else (0x80::nat));
                hi = (if b0 = 0xED then 0x9F else if b0 = 0xF4 then 0x8F else (0xBF::nat))
            in
              if length s < sz then 1
              else
                let b1 = (of_char (s ! 1) :: nat) in
                if b1 < lo \<or> hi < b1 then 1
                else if sz \<le> 2 then 2
                else
                  let b2 = (of_char (s ! 2) :: nat) in
                  if b2 < 0x80 \<or> 0xBF < b2 then 1
                  else if sz \<le> 3 then 3
                  else
                    let b3 = (of_char (s ! 3) :: nat) in
                    if b3 < 0x80 \<or> 0xBF < b3 then 1 else 4)"

lemma rune_width_pos: "s \<noteq> [] \<Longrightarrow> 0 < rune_width s"
  by (cases s) (simp_all add: rune_width_def Let_def)

text \<open>
  \<^verbatim>\<open>strings.Replace(s, old, new, -1)\<close> with a non-empty \<^verbatim>\<open>old\<close>: the
  non-overlapping occurrences of \<^verbatim>\<open>old\<close>, found from the left, are each replaced
  by \<^verbatim>\<open>new\<close>.  The bytes are compared for equality; no byte of \<^verbatim>\<open>old\<close> is a
  pattern character.
\<close>

function replace_from_left :: "string \<Rightarrow> string \<Rightarrow> string \<Rightarrow> string" where
  "replace_from_left old new s =
     (if old = [] \<or> s = [] then s
      else if prefix old s then new @ replace_from_left old new (drop (length old) s)
      else hd s # replace_from_left old new (tl s))"
  by pat_completeness auto
termination
  by (relation "measure (\<lambda>(old, new, s). length s)") auto

declare replace_from_left.simps [simp del]

text \<open>
  With an empty \<^verbatim>\<open>old\<close>, \<^verbatim>\<open>strings.Replace\<close> matches at the beginning of the
  string and after each UTF-8 sequence: \<^verbatim>\<open>new\<close> is written before the first rune and
  after every rune.
\<close>

function insert_after_runes :: "string \<Rightarrow> string \<Rightarrow> string" where
  "insert_after_runes new s =
     (if s = [] then []
      else take (rune_width s) s @ new @ insert_after_runes new (drop (rune_width s) s))"
  by pat_completeness auto
termination
  by (relation "measure (\<lambda>(new, s). length s)") (auto simp: rune_width_pos)

declare insert_after_runes.simps [simp del]

definition strings_Replace :: "string \<Rightarrow> string \<Rightarrow> string \<Rightarrow> string" where
  "strings_Replace s old new =
     (if old = new then s
      else if old = [] then new @ insert_after_runes new s
      else replace_from_left old new s)"

text \<open>
  \<^verbatim>\<open>filepath.Split\<close> (Unix): the path is cut right after its last separator; the
  directory part keeps the separator, and is empty when there is none.
\<close>

definition filepath_Split :: "string \<Rightarrow> string \<times> string" where
  "filepath_Split path =
     (let file = rev (takeWhile (\<lambda>c. c \<noteq> CHR ''/'') (rev path))
      in (take (length path - length file) path, file))"

text \<open>The elements of a path between its separators.\<close>

fun split_sep :: "string \<Rightarrow> string list" where
  "split_sep [] = [[]]"
| "split_sep (c # cs) =
     (if c = CHR ''/'' then [] # split_sep cs
      else (case split_sep cs of
              [] \<Rightarrow> [[c]]
            | e # es \<Rightarrow> (c # e) # es))"

text \<open>\<^verbatim>\<open>strings.Join\<close>: the elements with the separator between them.\<close>

fun strings_Join :: "string list \<Rightarrow> string \<Rightarrow> string" where
  "strings_Join [] sep = []"
| "strings_Join [e] sep = e"
| "strings_Join (e # es) sep = e @ sep @ strings_Join es sep"

text \<open>
  \<^verbatim>\<open>filepath.Clean\<close> (Unix).  Empty elements and \<^verbatim>\<open>.\<close> elements are dropped; a
  \<^verbatim>\<open>..\<close> element removes the element before it when that is not itself \<^verbatim>\<open>..\<close>,
  is dropped at the root of a rooted path, and is kept otherwise.  The elements kept so far
  are held in reverse.  An empty result is \<^verbatim>\<open>.\<close>.
\<close>

fun clean_step :: "bool \<Rightarrow> string list \<Rightarrow> string \<Rightarrow> string list" where
  "clean_step rooted kept e =
     (if e = [] \<or> e = ''.'' then kept
      else if e = ''..'' then
        (case kept of
           [] \<Rightarrow> if rooted then [] else [e]
         | e1 # below \<Rightarrow> if e1 = ''..'' then e # kept else below)
      else e # kept)"

definition filepath_Clean :: "string \<Rightarrow> string" where
  "filepath_Clean path =
     (let rooted = (path \<noteq> [] \<and> hd path = CHR ''/'');
          body = strings_Join (rev (foldl (clean_step rooted) [] (split_sep path))) ''/''
      in if rooted then CHR ''/'' # body
         else if body = [] then ''.'' else body)"

text \<open>
  \<^verbatim>\<open>filepath.Join\<close>: the elements from the first non-empty one on are joined with
  the separator and cleaned; when every element is empty the result is empty.
\<close>

definition filepath_Join :: "string list \<Rightarrow> string" where
  "filepath_Join elem =
     (case dropWhile (\<lambda>e. e = []) elem of
        [] \<Rightarrow> []
      | es \<Rightarrow> filepath_Clean (strings_Join es ''/''))"

text \<open>\<^verbatim>\<open>fmt.Sprintf("arn:aws:s3:::%s/%s", bucket, key)\<close>.\<close>

definition s3_arn :: "string \<Rightarrow> string \<Rightarrow> string" where
  "s3_arn bucket key = ''arn:aws:s3:::'' @ bucket @ ''/'' @ key"

subsection \<open>Errors, faults and results\<close>

text \<open>
  An \<^verbatim>\<open>error\<close> value of Go carries a message.  A fault is a run-time panic: the
  dereference of a nil backend, the dereference of nil options, or a failed type assertion.
  A call returns a value, returns an error, or panics.
\<close>

datatype error = Error string

datatype fault = NilBackend | NilOptions | InterfaceConversion

datatype 'a result = Ok 'a | Err error | Panic fault

subsection \<open>Configuration\<close>

record Substitution =
  Old :: string
  New :: string

record Options =
  PathSubstitutions :: "Substitution list"
  Overwrite :: bool

record S3Backend =
  Bucket :: string
  Keys :: "string list"
  Region :: string
  RoleARN :: string
  ExternalID :: string
  SessionName :: string

text \<open>
  \<^verbatim>\<open>Options\<close> is a pointer and \<^verbatim>\<open>S3\<close> a slice of pointers: each may be nil,
  which is \<^term>\<open>None\<close>.  \<^verbatim>\<open>StateFilenames\<close> is a map from local file name to
  remote reference; the nil map it holds before the first pull reads as the empty map.
\<close>

record TerraformBackends =
  Destination :: string
  Options :: "Options option"
  S3 :: "S3Backend option list"
  StateFilenames :: "string \<rightharpoonup> string"

subsection \<open>The local disk and the object store\<close>

text \<open>
  The code acts on the local disk and on the object store.  The world holds the paths
  that exist as regular files and as directories, and the batched retrievals issued so far,
  oldest first: each is the bucket and the enqueued objects, an object being its key and the
  file its writer was opened on.  What is written into a file is not tracked.
\<close>

record world =
  files :: "string set"
  dirs :: "string set"
  issued :: "(string \<times> (string \<times> string) list) list"

text \<open>
  Whether the operating system or the object store refuses an operation is not decided by
  the code: the environment says, for a world and an operation, which error it answers,
  if any.  For \<^verbatim>\<open>os.Stat\<close> it says which error other than absence it answers (a
  name too long, a permission refused), whether the path is on the disk or not.
\<close>

record os_env =
  mkdir_error :: "world \<Rightarrow> string \<Rightarrow> error option"
  open_error :: "world \<Rightarrow> string \<Rightarrow> error option"
  stat_error :: "world \<Rightarrow> string \<Rightarrow> error option"
  download_error :: "world \<Rightarrow> string \<Rightarrow> (string \<times> string) list \<Rightarrow> error option"

text \<open>The directories above a cleaned path: its proper prefixes that end before a separator.\<close>

fun parent_dirs :: "string \<Rightarrow> string \<Rightarrow> string list" where
  "parent_dirs pre [] = []"
| "parent_dirs pre (c # cs) =
     (if c = CHR ''/'' \<and> pre \<noteq> [] then [pre] else []) @ parent_dirs (pre @ [c]) cs"

definition made_dirs :: "string \<Rightarrow> string list" where
  "made_dirs d =
     d # parent_dirs [] d @ (if d \<noteq> [] \<and> hd d = CHR ''/'' then [''/''] else [])"

text \<open>
  \<^verbatim>\<open>os.MkdirAll\<close>: nothing to do when the path is a directory already, an error
  when it is a regular file; otherwise the environment decides, and on success the
  directory and every directory above it exist.  What a refused call made before the
  refusal is not tracked.
\<close>

definition os_MkdirAll :: "os_env \<Rightarrow> world \<Rightarrow> string \<Rightarrow> error option \<times> world" where
  "os_MkdirAll env w d =
     (if d \<in> dirs w then (None, w)
      else if d \<in> files w then (Some (Error ''not a directory''), w)
      else (case mkdir_error env w d of
              Some err \<Rightarrow> (Some err, w)
            | None \<Rightarrow> (None, w\<lparr>dirs := dirs w \<union> set (made_dirs d)\<rparr>)))"

text \<open>The path is on the disk, as a regular file or as a directory.\<close>

definition os_exists :: "world \<Rightarrow> string \<Rightarrow> bool" where
  "os_exists w p = (p \<in> files w \<or> p \<in> dirs w)"

text \<open>
  \<^verbatim>\<open>os.Stat\<close> followed by \<^verbatim>\<open>!os.IsNotExist(err)\<close>.  The error of
  \<^verbatim>\<open>os.Stat\<close> is nil when the path is on the disk and the environment answers no
  error, the error of the environment when it answers one, and the error of absence
  otherwise.  The test holds for every outcome but absence: an error other than absence
  passes for presence.
\<close>

definition not_absent :: "os_env \<Rightarrow> world \<Rightarrow> string \<Rightarrow> bool" where
  "not_absent env w p = (stat_error env w p \<noteq> None \<or> os_exists w p)"

text \<open>
  \<^verbatim>\<open>os.OpenFile(name, O_WRONLY|O_CREATE, 0666)\<close>: an error on a directory;
  otherwise the environment decides, and on success the file exists.
\<close>

definition os_OpenFile :: "os_env \<Rightarrow> world \<Rightarrow> string \<Rightarrow> error option \<times> world" where
  "os_OpenFile env w name =
     (if name \<in> dirs w then (Some (Error ''is a directory''), w)
      else (case open_error env w name of
              Some err \<Rightarrow> (Some err, w)
            | None \<Rightarrow> (None, w\<lparr>files := insert name (files w)\<rparr>)))"

subsection \<open>\<^verbatim>\<open>S3Backend.Download\<close>\<close>

text \<open>
  The key after the path substitutions, applied in the order of the list.  The loop over
  the substitutions is guarded by \<^verbatim>\<open>options != nil\<close>; a nil slice of substitutions
  ranges like the empty one.
\<close>

definition transform :: "Options option \<Rightarrow> string \<Rightarrow> string" where
  "transform options key =
     (case options of
        None \<Rightarrow> key
      | Some opts \<Rightarrow>
          foldl (\<lambda>transformed substitution.
                   strings_Replace transformed (Old substitution) (New substitution))
            key (PathSubstitutions opts))"

definition local_dir :: "string \<Rightarrow> Options option \<Rightarrow> string \<Rightarrow> string \<Rightarrow> string" where
  "local_dir destination options bucket key =
     filepath_Join [destination, bucket, fst (filepath_Split (transform options key))]"

definition local_file :: "string \<Rightarrow> Options option \<Rightarrow> string \<Rightarrow> string \<Rightarrow> string" where
  "local_file destination options bucket key =
     (let (dir, transformed) = filepath_Split (transform options key)
      in filepath_Join [destination, bucket, dir, transformed])"

text \<open>
  The condition \<^verbatim>\<open>!os.IsNotExist(err) && !options.Overwrite\<close> of the overwrite check.
  The conjunction is short-circuit: \<^verbatim>\<open>options.Overwrite\<close> is read only when the
  first test holds, and reading it through nil options panics, which is \<^term>\<open>None\<close>
  here.
\<close>

definition already_exists ::
  "os_env \<Rightarrow> world \<Rightarrow> string \<Rightarrow> Options option \<Rightarrow> bool option" where
  "already_exists env w filename options =
     (if not_absent env w filename
      then (case options of None \<Rightarrow> None | Some opts \<Rightarrow> Some (\<not> Overwrite opts))
      else Some False)"

text \<open>
  The body of the loop over the keys.  The state of the loop is the map
  \<^verbatim>\<open>filenames\<close> and the slice \<^verbatim>\<open>objects\<close>.  The entry of the map is
  written before the overwrite check, for skipped keys too.
\<close>

type_synonym download_state = "(string \<rightharpoonup> string) \<times> (string \<times> string) list"

definition Download_key ::
  "os_env \<Rightarrow> S3Backend \<Rightarrow> string \<Rightarrow> Options option \<Rightarrow> string \<Rightarrow> download_state \<Rightarrow> world
     \<Rightarrow> download_state result \<times> world" where
  "Download_key env b destination options key st w =
     (case os_MkdirAll env w (local_dir destination options (Bucket b) key) of
        (Some err, w1) \<Rightarrow> (Err err, w1)
      | (None, w1) \<Rightarrow>
          let filename = local_file destination options (Bucket b) key;
              filenames = (fst st)(filename \<mapsto> s3_arn (Bucket b) key)
          in
            (case already_exists env w1 filename options of
               None \<Rightarrow> (Panic NilOptions, w1)
             | Some True \<Rightarrow> (Ok (filenames, snd st), w1)
             | Some False \<Rightarrow>
                 (case os_OpenFile env w1 filename of
                    (Some err, w2) \<Rightarrow> (Err err, w2)
                  | (None, w2) \<Rightarrow> (Ok (filenames, snd st @ [(key, filename)]), w2))))"

fun Download_keys ::
  "os_env \<Rightarrow> S3Backend \<Rightarrow> string \<Rightarrow> Options option \<Rightarrow> string list \<Rightarrow> download_state \<Rightarrow> world
     \<Rightarrow> download_state result \<times> world" where
  "Download_keys env b destination options [] st w = (Ok st, w)"
| "Download_keys env b destination options (key # keys) st w =
     (case Download_key env b destination options key st w of
        (Ok st1, w1) \<Rightarrow> Download_keys env b destination options keys st1 w1
      | (Err err, w1) \<Rightarrow> (Err err, w1)
      | (Panic f, w1) \<Rightarrow> (Panic f, w1))"

text \<open>
  The whole call.  Taking the address of a field of a nil backend panics.  Opening the
  session (\<^verbatim>\<open>common.OpenSession\<close>, which is not among the sources) is taken to
  succeed and to leave the disk alone.  One batched retrieval is issued when some object was
  enqueued; on every error the map built so far is lost (\<^verbatim>\<open>return nil, err\<close>).
\<close>

definition Download ::
  "os_env \<Rightarrow> S3Backend option \<Rightarrow> string \<Rightarrow> Options option \<Rightarrow> world
     \<Rightarrow> (string \<rightharpoonup> string) result \<times> world" where
  "Download env s3Backend destination options w =
     (case s3Backend of
        None \<Rightarrow> (Panic NilBackend, w)
      | Some b \<Rightarrow>
          (case Download_keys env b destination options (Keys b) (Map.empty, []) w of
             (Err err, w1) \<Rightarrow> (Err err, w1)
           | (Panic f, w1) \<Rightarrow> (Panic f, w1)
           | (Ok (filenames, objects), w1) \<Rightarrow>
               if objects \<noteq> [] then
                 (let w2 = w1\<lparr>issued := issued w1 @ [(Bucket b, objects)]\<rparr>
                  in case download_error env w1 (Bucket b) objects of
                       Some err \<Rightarrow> (Err err, w2)
                     | None \<Rightarrow> (Ok filenames, w2))
               else (Ok filenames, w1)))"

subsection \<open>\<^verbatim>\<open>TerraformBackends.Verify\<close> and \<^verbatim>\<open>Pull\<close>\<close>

text \<open>\<^verbatim>\<open>Verify\<close> returns an error or nil, and may fill in the default options.\<close>

definition Verify :: "TerraformBackends \<Rightarrow> error option \<times> TerraformBackends" where
  "Verify t =
     (if length (Destination t) = 0 then (Some (Error ''Destination field is empty''), t)
      else if length (S3 t) = 0 then (Some (Error ''s3 field is empty''), t)
      else if Options t = None
      then (None, t\<lparr>Options := Some \<lparr>PathSubstitutions = [], Overwrite = False\<rparr>\<rparr>)
      else (None, t))"

text \<open>
  The loop of \<^verbatim>\<open>Pull\<close> over the backends, in the order of the configuration.  The
  inner loop stores every entry of the returned map into \<^verbatim>\<open>StateFilenames\<close>; the
  keys of a map are distinct, so the order of that range does not matter and the result is
  the map overridden by the returned one.
\<close>

fun Pull_backends ::
  "os_env \<Rightarrow> S3Backend option list \<Rightarrow> TerraformBackends \<Rightarrow> world
     \<Rightarrow> unit result \<times> TerraformBackends \<times> world" where
  "Pull_backends env [] t w = (Ok (), t, w)"
| "Pull_backends env (backend # rest) t w =
     (case Download env backend (Destination t) (Options t) w of
        (Err err, w1) \<Rightarrow> (Err err, t, w1)
      | (Panic f, w1) \<Rightarrow> (Panic f, t, w1)
      | (Ok filenames, w1) \<Rightarrow>
          Pull_backends env rest (t\<lparr>StateFilenames := StateFilenames t ++ filenames\<rparr>) w1)"

text \<open>\<^verbatim>\<open>Pull\<close> returns nil when \<^verbatim>\<open>Verify\<close> fails.\<close>

definition Pull ::
  "os_env \<Rightarrow> TerraformBackends \<Rightarrow> world \<Rightarrow> unit result \<times> TerraformBackends \<times> world" where
  "Pull env t w =
     (case Verify t of
        (Some err, t1) \<Rightarrow> (Ok (), t1, w)
      | (None, t1) \<Rightarrow> Pull_backends env (S3 t1) (t1\<lparr>StateFilenames := Map.empty\<rparr>) w)"

subsection \<open>State documents\<close>

text \<open>
  The state file is read by the Terraform library into modules, each with resources, each
  with instances; an instance may carry a current object with a blob of attributes in
  JSON.  The three levels are maps of Go, and the code ranges over them: each is given
  here as the list of its elements in the order the range visits them.  Go does not
  specify that order, so a state document is read as any rearrangement of its lists, and
  a statement about a document has to hold for all of them.

  \<^verbatim>\<open>json.Unmarshal\<close> decodes the blob into a \<^verbatim>\<open>map[string]interface{}\<close>.  The
  blob is held as what the decoding makes of it: an error, or the map.  A value of the map
  is nil (JSON null), a string, or of some other dynamic type.
\<close>

datatype jvalue = JNull | JString string | JOther

record ResourceInstanceObjectSrc =
  AttrsJSON :: "error + (string \<rightharpoonup> jvalue)"

record ResourceInstance =
  Current :: "ResourceInstanceObjectSrc option"

record StateResource =
  AddrType :: string
  Instances :: "ResourceInstance list"

record Module =
  Resources :: "StateResource list"

text \<open>
  The descriptor \<^verbatim>\<open>resources.Resource\<close>; the code sets \<^verbatim>\<open>ID\<close> and
  \<^verbatim>\<open>ARN\<close> and leaves the other fields at their zero values.
\<close>

record Resource =
  ID :: string
  ARN :: string

text \<open>
  Modelled from the spec: the method \<^verbatim>\<open>UniqueID\<close> of \<^verbatim>\<open>resources.Resource\<close>
  is not among the sources.  The spec says that identity for indexing purposes is the
  identifier field alone.
\<close>

definition UniqueID :: "Resource \<Rightarrow> string" where
  "UniqueID resource = ID resource"

text \<open>
  \<^verbatim>\<open>decoded[key]\<close>: the nil interface when the key is absent.  The type assertion
  \<^verbatim>\<open>.(string)\<close> in its one-value form panics on anything but a string, which is
  \<^term>\<open>None\<close> here.
\<close>

definition index_attr :: "(string \<rightharpoonup> jvalue) \<Rightarrow> string \<Rightarrow> jvalue" where
  "index_attr decoded key = (case decoded key of None \<Rightarrow> JNull | Some v \<Rightarrow> v)"

fun assert_string :: "jvalue \<Rightarrow> string option" where
  "assert_string (JString s) = Some s"
| "assert_string JNull = None"
| "assert_string JOther = None"

subsection \<open>\<^verbatim>\<open>LoadStateFromFile\<close>\<close>

text \<open>
  Where the three nested loops stand after an instance: still running with the output so
  far, returned with the output and an error, or panicked.
\<close>

datatype decoding = Running "Resource list" | Returned "Resource list" error | Panicked fault

definition arnless_type :: "string \<Rightarrow> bool" where
  "arnless_type typ =
     (typ = ''aws_iam_access_key'' \<or> typ = ''aws_route53_record'' \<or> typ = ''aws_route53_zone'')"

definition decode_instance :: "string \<Rightarrow> ResourceInstance \<Rightarrow> Resource list \<Rightarrow> decoding" where
  "decode_instance typ inst output =
     (case Current inst of
        None \<Rightarrow> Running output
      | Some current \<Rightarrow>
          (case AttrsJSON current of
             Inl err \<Rightarrow> Returned output err
           | Inr decoded \<Rightarrow>
               (case assert_string (index_attr decoded ''id'') of
                  None \<Rightarrow> Panicked InterfaceConversion
                | Some ident \<Rightarrow>
                    if index_attr decoded ''arn'' = JNull then
                      (if arnless_type typ
                       then Running (output @ [\<lparr>ID = ident, ARN = []\<rparr>])
                       else Running output)
                    else
                      (case assert_string (index_attr decoded ''arn'') of
                         None \<Rightarrow> Panicked InterfaceConversion
                       | Some arn \<Rightarrow> Running (output @ [\<lparr>ID = ident, ARN = arn\<rparr>])))))"

fun decode_instances :: "string \<Rightarrow> ResourceInstance list \<Rightarrow> Resource list \<Rightarrow> decoding" where
  "decode_instances typ [] output = Running output"
| "decode_instances typ (inst # rest) output =
     (case decode_instance typ inst output of
        Running output1 \<Rightarrow> decode_instances typ rest output1
      | Returned output1 err \<Rightarrow> Returned output1 err
      | Panicked f \<Rightarrow> Panicked f)"

fun decode_resources :: "StateResource list \<Rightarrow> Resource list \<Rightarrow> decoding" where
  "decode_resources [] output = Running output"
| "decode_resources (resource # rest) output =
     (case decode_instances (AddrType resource) (Instances resource) output of
        Running output1 \<Rightarrow> decode_resources rest output1
      | Returned output1 err \<Rightarrow> Returned output1 err
      | Panicked f \<Rightarrow> Panicked f)"

fun decode_modules :: "Module list \<Rightarrow> Resource list \<Rightarrow> decoding" where
  "decode_modules [] output = Running output"
| "decode_modules (m # rest) output =
     (case decode_resources (Resources m) output of
        Running output1 \<Rightarrow> decode_modules rest output1
      | Returned output1 err \<Rightarrow> Returned output1 err
      | Panicked f \<Rightarrow> Panicked f)"

text \<open>
  A call of a function with the Go result \<^verbatim>\<open>(value, error)\<close> where the value is
  returned beside the error: it returns the pair or panics.
\<close>

datatype 'a returned = Returns 'a | Panics fault

text \<open>
  \<^verbatim>\<open>LoadStateFromFile\<close>.  What \<^verbatim>\<open>os.Open\<close> and \<^verbatim>\<open>statefile.Read\<close> make of
  the file of a name is the argument \<open>read\<close>: an error, or the modules of the state.
\<close>

definition LoadStateFromFile ::
  "(string \<Rightarrow> error + Module list) \<Rightarrow> string \<Rightarrow> (Resource list \<times> error option) returned" where
  "LoadStateFromFile read filename =
     (case read filename of
        Inl err \<Rightarrow> Returns ([], Some err)
      | Inr modules \<Rightarrow>
          (case decode_modules modules [] of
             Running output \<Rightarrow> Returns (output, None)
           | Returned output err \<Rightarrow> Returns (output, Some err)
           | Panicked f \<Rightarrow> Panics f))"

subsection \<open>\<^verbatim>\<open>TerraformBackends.Load\<close>\<close>


definition entries :: "('k \<rightharpoonup> 'v) \<Rightarrow> 'k list \<Rightarrow> ('k \<times> 'v) list" where
  "entries m order = List.map_filter (\<lambda>k. map_option (Pair k) (m k)) order"

text \<open>The inner loop: every resource of the file is indexed under the remote reference.\<close>

definition index_resources ::
  "(Resource \<Rightarrow> string) \<Rightarrow> string \<Rightarrow> Resource list \<Rightarrow> (string \<rightharpoonup> string) \<Rightarrow> (string \<rightharpoonup> string)" where
  "index_resources uid s3 resources managed =
     foldl (\<lambda>m resource. m(uid resource \<mapsto> s3)) managed resources"

fun Load_files ::
  "(string \<Rightarrow> error + Module list) \<Rightarrow> (Resource \<Rightarrow> string) \<Rightarrow> (string \<times> string) list
     \<Rightarrow> (string \<rightharpoonup> string) \<Rightarrow> (string \<rightharpoonup> string) returned" where
  "Load_files read uid [] managed = Returns managed"
| "Load_files read uid ((filename, s3) # rest) managed =
     (case LoadStateFromFile read filename of
        Panics f \<Rightarrow> Panics f
      | Returns (resources, Some err) \<Rightarrow> Load_files read uid rest managed
      | Returns (resources, None) \<Rightarrow>
          Load_files read uid rest (index_resources uid s3 resources managed))"

text \<open>
  \<^verbatim>\<open>Load\<close>, with the method \<^verbatim>\<open>UniqueID\<close> as the argument \<open>uid\<close>.  The error
  it returns is always nil.
\<close>

definition Load ::
  "(string \<Rightarrow> error + Module list) \<Rightarrow> (Resource \<Rightarrow> string) \<Rightarrow> string list \<Rightarrow> TerraformBackends
     \<Rightarrow> ((string \<rightharpoonup> string) \<times> error option) returned" where
  "Load read uid order t =
     (case Load_files read uid (entries (StateFilenames t) order) Map.empty of
        Panics f \<Rightarrow> Panics f
      | Returns managed \<Rightarrow> Returns (managed, None))"

subsection \<open>Concrete environments\<close>

text \<open>An environment in which no operation is refused, and a disk with nothing on it.\<close>

definition env_ok :: os_env where
  "env_ok = \<lparr>mkdir_error = (\<lambda>w d. None), open_error = (\<lambda>w name. None),
             stat_error = (\<lambda>w name. None), download_error = (\<lambda>w bucket objects. None)\<rparr>"

definition empty_world :: world where
  "empty_world = \<lparr>files = {}, dirs = {}, issued = []\<rparr>"

definition backend_of :: "string \<Rightarrow> string list \<Rightarrow> S3Backend" where
  "backend_of bucket keys =
     \<lparr>Bucket = bucket, Keys = keys, Region = ''eu-west-1'', RoleARN = [], ExternalID = [],
      SessionName = []\<rparr>"

subsection \<open>The state decoder\<close>

text \<open>
  The instances of a state in the order the three nested loops visit them, each with the
  type of its resource, and the loops as one loop over them.
\<close>

definition all_instances :: "Module list \<Rightarrow> (string \<times> ResourceInstance) list" where
  "all_instances modules =
     concat (map (\<lambda>m. concat (map (\<lambda>r. map (Pair (AddrType r)) (Instances r)) (Resources m)))
       modules)"

fun decode_all :: "(string \<times> ResourceInstance) list \<Rightarrow> Resource list \<Rightarrow> decoding" where
  "decode_all [] out = Running out"
| "decode_all ((typ, inst) # rest) out =
     (case decode_instance typ inst out of
        Running out1 \<Rightarrow> decode_all rest out1
      | Returned out1 err \<Rightarrow> Returned out1 err
      | Panicked f \<Rightarrow> Panicked f)"

text \<open>
  A live instance is malformed when its blob does not decode; it lacks the identifier when
  the blob decodes to a map with no \<open>id\<close> attribute.
\<close>

definition malformed :: "ResourceInstance \<Rightarrow> bool" where
  "malformed inst =
     (case Current inst of
        None \<Rightarrow> False
      | Some current \<Rightarrow> (case AttrsJSON current of Inl err \<Rightarrow> True | Inr decoded \<Rightarrow> False))"

definition lacks_id :: "ResourceInstance \<Rightarrow> bool" where
  "lacks_id inst =
     (case Current inst of
        None \<Rightarrow> False
      | Some current \<Rightarrow>
          (case AttrsJSON current of Inl err \<Rightarrow> False | Inr decoded \<Rightarrow> decoded ''id'' = None))"

text \<open>
  The descriptors the spec asks of one instance: none when it has no current generation;
  for a live instance with an identifier, one with its \<open>arn\<close> when it has one, one
  with an empty \<open>ARN\<close> when it has none and the type of its resource is one of the
  kinds known to lack it, and none otherwise.
\<close>

definition retained :: "string \<Rightarrow> ResourceInstance \<Rightarrow> Resource list" where
  "retained typ inst =
     (case Current inst of
        None \<Rightarrow> []
      | Some current \<Rightarrow>
          (case AttrsJSON current of
             Inl err \<Rightarrow> []
           | Inr decoded \<Rightarrow>
               (case (index_attr decoded ''id'', index_attr decoded ''arn'') of
                  (JString ident, JString arn) \<Rightarrow> [\<lparr>ID = ident, ARN = arn\<rparr>]
                | (JString ident, JNull) \<Rightarrow>
                    if typ \<in> {''aws_iam_access_key'', ''aws_route53_record'', ''aws_route53_zone''}
                    then [\<lparr>ID = ident, ARN = []\<rparr>] else []
                | _ \<Rightarrow> [])))"

text \<open>
  An instance is well formed when it has no current generation, or its blob decodes, its
  \<open>id\<close> is a string and its \<open>arn\<close> is a string or absent.
\<close>

definition well_formed :: "ResourceInstance \<Rightarrow> bool" where
  "well_formed inst =
     (case Current inst of
        None \<Rightarrow> True
      | Some current \<Rightarrow>
          (case AttrsJSON current of
             Inl err \<Rightarrow> False
           | Inr decoded \<Rightarrow>
               assert_string (index_attr decoded ''id'') \<noteq> None
               \<and> index_attr decoded ''arn'' \<noteq> JOther))"

text \<open>Instances and the synthetic state document of the spec.\<close>

definition live_instance :: "(string \<times> jvalue) list \<Rightarrow> ResourceInstance" where
  "live_instance attrs = \<lparr>Current = Some \<lparr>AttrsJSON = Inr (map_of attrs)\<rparr>\<rparr>"

definition synthetic_state :: "Module list" where
  "synthetic_state =
     [\<lparr>Resources =
         [\<lparr>AddrType = ''aws_instance'',
           Instances =
             [live_instance
                [(''id'', JString ''i-123''),
                 (''arn'', JString ''arn:aws:ec2:...:instance/i-123'')]]\<rparr>]\<rparr>,
      \<lparr>Resources =
         [\<lparr>AddrType = ''aws_route53_zone'',
           Instances = [live_instance [(''id'', JString ''Z123'')]]\<rparr>]\<rparr>]"

subsection \<open>The index: outcomes of the decoding of a file\<close>

text \<open>
  The decoding of a file fails when \<open>LoadStateFromFile\<close> returns an error, and faults
  when it panics.  A file indexes an identifier when its decoding returns no error and one
  of its resources has that identifier.
\<close>

definition decode_fails :: "(string \<Rightarrow> error + Module list) \<Rightarrow> string \<Rightarrow> bool" where
  "decode_fails read filename =
     (case LoadStateFromFile read filename of
        Returns (resources, None) \<Rightarrow> False
      | Returns (resources, Some err) \<Rightarrow> True
      | Panics f \<Rightarrow> False)"

definition decode_faults :: "(string \<Rightarrow> error + Module list) \<Rightarrow> string \<Rightarrow> bool" where
  "decode_faults read filename =
     (case LoadStateFromFile read filename of
        Returns r \<Rightarrow> False
      | Panics f \<Rightarrow> True)"


text \<open>The entry of the index that a call of \<open>Load\<close> returned for an identifier.\<close>

definition owner_in ::
  "((string \<rightharpoonup> string) \<times> error option) returned \<Rightarrow> string \<Rightarrow> string option" where
  "owner_in r ident = (case r of Returns (managed, err) \<Rightarrow> managed ident | Panics f \<Rightarrow> None)"

text \<open>
  Three state files, the second of which is corrupt: its first instance decodes and its
  second instance holds a blob that does not.
\<close>

definition one_resource_state :: "string \<Rightarrow> Module list" where
  "one_resource_state ident =
     [\<lparr>Resources =
         [\<lparr>AddrType = ''aws_instance'',
           Instances = [live_instance [(''id'', JString ident), (''arn'', JString ident)]]\<rparr>]\<rparr>]"

definition corrupt_state :: "Module list" where
  "corrupt_state =
     [\<lparr>Resources =
         [\<lparr>AddrType = ''aws_instance'',
           Instances =
             [live_instance [(''id'', JString ''i-2''), (''arn'', JString ''i-2'')],
              \<lparr>Current = Some \<lparr>AttrsJSON = Inl (Error ''unexpected end of JSON input'')\<rparr>\<rparr>]\<rparr>]\<rparr>]"

definition three_files :: "string \<Rightarrow> error + Module list" where
  "three_files filename =
     (if filename = ''state/b/one.tfstate'' then Inr (one_resource_state ''i-1'')
      else if filename = ''state/b/two.tfstate'' then Inr corrupt_state
      else if filename = ''state/b/three.tfstate'' then Inr (one_resource_state ''i-3'')
      else Inl (Error ''no such file''))"

definition three_pulled :: TerraformBackends where
  "three_pulled =
     \<lparr>Destination = ''state'', Options = None,
      S3 = [Some (backend_of ''b'' [''one.tfstate'', ''two.tfstate'', ''three.tfstate''])],
      StateFilenames =
        [''state/b/one.tfstate'' \<mapsto> ''arn:aws:s3:::b/one.tfstate'',
         ''state/b/two.tfstate'' \<mapsto> ''arn:aws:s3:::b/two.tfstate'',
         ''state/b/three.tfstate'' \<mapsto> ''arn:aws:s3:::b/three.tfstate'']\<rparr>"

text \<open>
  Two backends whose state files hold the same resource, and what reading the two local
  files gives.
\<close>

definition two_backends :: TerraformBackends where
  "two_backends =
     \<lparr>Destination = ''state'', Options = None,
      S3 = [Some (backend_of ''first'' [''terraform.tfstate'']),
            Some (backend_of ''second'' [''terraform.tfstate''])],
      StateFilenames = Map.empty\<rparr>"


subsection \<open>The configured objects and what a pull records for them\<close>

text \<open>
  The objects of a configuration in its order: the bucket and key of every key of every
  backend.  For each the code records the local file with the remote reference; an entry
  written later overrides an earlier one with the same local file.
\<close>

definition backend_objects :: "S3Backend \<Rightarrow> (string \<times> string) list" where
  "backend_objects b = map (Pair (Bucket b)) (Keys b)"

definition configured_objects :: "S3Backend option list \<Rightarrow> (string \<times> string) list" where
  "configured_objects backends =
     concat (map (\<lambda>backend. case backend of None \<Rightarrow> [] | Some b \<Rightarrow> backend_objects b) backends)"

definition recorded ::
  "string \<Rightarrow> Options option \<Rightarrow> (string \<times> string) list \<Rightarrow> (string \<times> string) list" where
  "recorded destination options objects =
     map (\<lambda>(bucket, key). (local_file destination options bucket key, s3_arn bucket key)) objects"

text \<open>The overwrite flag is off: the options are set and their flag is false.\<close>

definition overwrite_off :: "Options option \<Rightarrow> bool" where
  "overwrite_off options = (case options of None \<Rightarrow> False | Some opts \<Rightarrow> \<not> Overwrite opts)"

text \<open>The local file of every object is on the disk; the local directory of every object is a directory.\<close>

definition all_fetched :: "world \<Rightarrow> string \<Rightarrow> Options option \<Rightarrow> (string \<times> string) list \<Rightarrow> bool" where
  "all_fetched w destination options objects =
     list_all (\<lambda>(bucket, key). os_exists w (local_file destination options bucket key)) objects"

definition all_dirs_made :: "world \<Rightarrow> string \<Rightarrow> Options option \<Rightarrow> (string \<times> string) list \<Rightarrow> bool" where
  "all_dirs_made w destination options objects =
     list_all (\<lambda>(bucket, key). local_dir destination options bucket key \<in> dirs w) objects"

text \<open>
  A configuration with two keys that the substitution of the slash by an underscore sends
  to the same local file; the overwrite flag is on, so both objects are retrieved.
\<close>

definition colliding :: TerraformBackends where
  "colliding =
     \<lparr>Destination = ''state'',
      Options = Some \<lparr>PathSubstitutions = [\<lparr>Old = ''/'', New = ''_''\<rparr>], Overwrite = True\<rparr>,
      S3 = [Some (backend_of ''b'' [''a/b'', ''a_b''])],
      StateFilenames = Map.empty\<rparr>"

text \<open>
  Three backends and an environment in which the object store refuses the retrieval from
  the second bucket.
\<close>

definition three_backends :: TerraformBackends where
  "three_backends =
     \<lparr>Destination = ''state'', Options = None,
      S3 = [Some (backend_of ''first'' [''terraform.tfstate'']),
            Some (backend_of ''second'' [''terraform.tfstate'']),
            Some (backend_of ''third'' [''terraform.tfstate''])],
      StateFilenames = Map.empty\<rparr>"

definition env_second_fails :: os_env where
  "env_second_fails =
     \<lparr>mkdir_error = (\<lambda>w d. None), open_error = (\<lambda>w name. None),
      stat_error = (\<lambda>w name. None),
      download_error =
        (\<lambda>w bucket objects. if bucket = ''second'' then Some (Error ''AccessDenied'') else None)\<rparr>"

text \<open>
  The same environment, in which moreover \<^verbatim>\<open>os.Stat\<close> answers an error other than
  absence for the local file of the first backend.
\<close>

definition env_stat_fails :: os_env where
  "env_stat_fails =
     \<lparr>mkdir_error = (\<lambda>w d. None), open_error = (\<lambda>w name. None),
      stat_error =
        (\<lambda>w name. if name = ''state/first/terraform.tfstate''
                   then Some (Error ''file name too long'') else None),
      download_error =
        (\<lambda>w bucket objects. if bucket = ''second'' then Some (Error ''AccessDenied'') else None)\<rparr>"

text \<open>
  Every object of the requests has its file on the disk as a regular file: the files the
  retrievals were written to.
\<close>

text \<open>
  An environment in which \<^verbatim>\<open>os.Stat\<close> answers no error other than absence.
\<close>

definition stat_reliable :: "os_env \<Rightarrow> bool" where
  "stat_reliable env = (\<forall>w p. stat_error env w p = None)"


text \<open>
  The overwrite flag in effect for a pull: the flag of the options, and false when the
  options are unset, since \<open>Verify\<close> then installs the default.
\<close>

definition effective_overwrite :: "TerraformBackends \<Rightarrow> bool" where
  "effective_overwrite t = (case Options t of None \<Rightarrow> False | Some opts \<Rightarrow> Overwrite opts)"

section \<open>Properties\<close>

subsection \<open>Path substitutions\<close>

lemma not_sublist_butlast: "old \<noteq> [] \<Longrightarrow> \<not> sublist old (butlast old)"
proof
  assume "old \<noteq> []" "sublist old (butlast old)"
  then have "length old \<le> length (butlast old)" by (intro sublist_length_le)
  then have "old = []" by (cases old) (simp_all del: butlast.simps)
  with \<open>old \<noteq> []\<close> show False by simp
qed

text \<open>
  The replacement cuts the string at the occurrences of \<open>old\<close>, found from the left
  and not overlapping: the string is the pieces joined by \<open>old\<close>, the result is the same
  pieces joined by \<open>new\<close>, and \<open>old\<close> occurs neither inside the last piece nor, before
  the cut, in a piece followed by all but the last byte of \<open>old\<close>.
\<close>

lemma replace_from_left_pieces:
  assumes "old \<noteq> []"
  shows "\<exists>ps. ps \<noteq> [] \<and> s = strings_Join ps old
           \<and> replace_from_left old new s = strings_Join ps new
           \<and> (\<forall>p\<in>set (butlast ps). \<not> sublist old (p @ butlast old))
           \<and> \<not> sublist old (last ps)"
  using assms
proof (induction old new s rule: replace_from_left.induct)
  case (1 old new s)
  show ?case
  proof (cases "s = []")
    case True
    have "replace_from_left old new [] = []" by (simp add: replace_from_left.simps)
    with True 1(3) show ?thesis by (intro exI[of _ "[[]]"]) simp
  next
    case False
    show ?thesis
    proof (cases "prefix old s")
      case True
      from 1(1)[OF _ True] 1(3) False obtain ps where ps: "ps \<noteq> []"
        "drop (length old) s = strings_Join ps old"
        "replace_from_left old new (drop (length old) s) = strings_Join ps new"
        "\<forall>p\<in>set (butlast ps). \<not> sublist old (p @ butlast old)" "\<not> sublist old (last ps)"
        by auto
      from ps(1) obtain q qs where q: "ps = q # qs" by (cases ps) auto
      have s: "s = old @ drop (length old) s"
        using True by (metis append_eq_conv_conj prefix_def)
      have r: "replace_from_left old new s = new @ replace_from_left old new (drop (length old) s)"
        using True False 1(3) by (subst replace_from_left.simps) simp
      have nb: "\<not> sublist old (butlast old)" using 1(3) by (rule not_sublist_butlast)
      show ?thesis
        apply (intro exI[of _ "[] # ps"])
        using ps s r nb q by auto
    next
      case np: False
      from 1(2)[OF _ np] 1(3) False obtain ps where ps: "ps \<noteq> []"
        "tl s = strings_Join ps old"
        "replace_from_left old new (tl s) = strings_Join ps new"
        "\<forall>p\<in>set (butlast ps). \<not> sublist old (p @ butlast old)" "\<not> sublist old (last ps)"
        by auto
      from ps(1) obtain q qs where q: "ps = q # qs" by (cases ps) auto
      from False obtain c cs where c: "s = c # cs" by (cases s) auto
      have r: "replace_from_left old new s = c # replace_from_left old new cs"
        using np False 1(3) c by (subst replace_from_left.simps) simp
      show ?thesis
      proof (cases qs)
        case Nil
        then show ?thesis
          apply (intro exI[of _ "[c # q]"])
          using ps c r q np by (auto simp: sublist_Cons_right)
      next
        case (Cons q' qs')
        have "prefix (c # q @ butlast old) s"
          using ps(2) c q Cons by (cases old rule: rev_cases) (auto simp: 1(3))
        then have "\<not> prefix old (c # q @ butlast old)"
          using np prefix_order.trans by blast
        then show ?thesis
          apply (intro exI[of _ "(c # q) # qs"])
          using ps c r q np Cons by (auto simp: sublist_Cons_right)
      qed
    qed
  qed
qed

lemma strings_Replace_pieces:
  assumes "old \<noteq> []"
  shows "\<exists>ps. ps \<noteq> [] \<and> s = strings_Join ps old
           \<and> strings_Replace s old new = strings_Join ps new
           \<and> (\<forall>p\<in>set (butlast ps). \<not> sublist old (p @ butlast old))
           \<and> \<not> sublist old (last ps)"
proof (cases "old = new")
  case True
  from replace_from_left_pieces[OF assms, of s new] obtain ps where
    "ps \<noteq> []" "s = strings_Join ps old"
    "\<forall>p\<in>set (butlast ps). \<not> sublist old (p @ butlast old)" "\<not> sublist old (last ps)"
    by blast
  with True show ?thesis
    by (intro exI[of _ ps]) (simp add: strings_Replace_def)
next
  case False
  with assms replace_from_left_pieces[OF assms, of s new] show ?thesis
    by (simp add: strings_Replace_def)
qed

text \<open>
  C7.  The path substitutions are applied in the order of the list: with no rule the key
  is unchanged, and a rule at the end of the list is applied to what the rules before it
  have made of the key.  Each rule is a literal replacement of all the occurrences of
  \<open>old\<close> by \<open>new\<close>: for a non-empty \<open>old\<close> the key is cut at the occurrences of
  \<open>old\<close>, taken from the left and not overlapping, and the pieces are joined by
  \<open>new\<close>.  The rules that turn the slash into an underscore and then delete \<open>_v2\<close>
  make \<open>a_b\<close> of the key \<open>a/b_v2\<close>.
\<close>

theorem substitutions_in_order_literal:
  "transform (Some \<lparr>PathSubstitutions = [], Overwrite = ov\<rparr>) key = key
   \<and> transform (Some \<lparr>PathSubstitutions = rules @ [\<lparr>Old = old, New = new\<rparr>], Overwrite = ov\<rparr>) key
       = strings_Replace (transform (Some \<lparr>PathSubstitutions = rules, Overwrite = ov\<rparr>) key) old new
   \<and> (old \<noteq> [] \<longrightarrow>
        (\<exists>ps. ps \<noteq> [] \<and> s = strings_Join ps old
           \<and> strings_Replace s old new = strings_Join ps new
           \<and> (\<forall>p\<in>set (butlast ps). \<not> sublist old (p @ butlast old))
           \<and> \<not> sublist old (last ps)))
   \<and> transform (Some \<lparr>PathSubstitutions = [\<lparr>Old = ''/'', New = ''_''\<rparr>, \<lparr>Old = ''_v2'', New = []\<rparr>],
                      Overwrite = ov\<rparr>) ''a/b_v2'' = ''a_b''"
proof -
  have "transform (Some \<lparr>PathSubstitutions = [\<lparr>Old = ''/'', New = ''_''\<rparr>, \<lparr>Old = ''_v2'', New = []\<rparr>],
                      Overwrite = ov\<rparr>) ''a/b_v2'' = ''a_b''"
    by (simp add: transform_def strings_Replace_def replace_from_left.simps)
  moreover have "old \<noteq> [] \<longrightarrow>
        (\<exists>ps. ps \<noteq> [] \<and> s = strings_Join ps old
           \<and> strings_Replace s old new = strings_Join ps new
           \<and> (\<forall>p\<in>set (butlast ps). \<not> sublist old (p @ butlast old))
           \<and> \<not> sublist old (last ps))"
    using strings_Replace_pieces by blast
  ultimately show ?thesis by (simp add: transform_def)
qed

theorem substitutions_in_order_literal_witness:
  "''_v2'' \<noteq> []
   \<and> transform (Some \<lparr>PathSubstitutions = [\<lparr>Old = ''/'', New = ''_''\<rparr>, \<lparr>Old = ''_v2'', New = []\<rparr>],
                      Overwrite = False\<rparr>) ''a/b_v2''
       = strings_Replace (transform (Some \<lparr>PathSubstitutions = [\<lparr>Old = ''/'', New = ''_''\<rparr>],
                                           Overwrite = False\<rparr>) ''a/b_v2'') ''_v2'' []
   \<and> (\<exists>ps. ps \<noteq> [] \<and> ''a_b_v2'' = strings_Join ps ''_v2''
           \<and> strings_Replace ''a_b_v2'' ''_v2'' [] = strings_Join ps [])"
  using substitutions_in_order_literal
    [of False "''a/b_v2''" "[\<lparr>Old = ''/'', New = ''_''\<rparr>]" "''_v2''" "[]" "''a_b_v2''"]
  by auto

subsection \<open>Invalid configurations\<close>

text \<open>
  C2.  When the destination is unset or the list of backends is empty, \<open>Verify\<close> fails
  with the error of the missing field and leaves the configuration as it is, and
  \<open>Pull\<close> returns nil with the configuration and the world unchanged: no file or
  directory is made and no retrieval is issued.
\<close>

theorem Pull_invalid_configuration:
  assumes "length (Destination t) = 0 \<or> length (S3 t) = 0"
  shows "(Verify t = (Some (Error ''Destination field is empty''), t)
          \<or> Verify t = (Some (Error ''s3 field is empty''), t))
         \<and> Pull env t w = (Ok (), t, w)"
  using assms by (auto simp: Verify_def Pull_def)

theorem Pull_invalid_configuration_witness:
  "length (S3 \<lparr>Destination = ''state'', Options = None, S3 = [], StateFilenames = Map.empty\<rparr>) = 0
   \<and> Verify \<lparr>Destination = ''state'', Options = None, S3 = [], StateFilenames = Map.empty\<rparr>
       = (Some (Error ''s3 field is empty''),
          \<lparr>Destination = ''state'', Options = None, S3 = [], StateFilenames = Map.empty\<rparr>)
   \<and> Pull env_ok \<lparr>Destination = ''state'', Options = None, S3 = [], StateFilenames = Map.empty\<rparr>
        empty_world
       = (Ok (), \<lparr>Destination = ''state'', Options = None, S3 = [], StateFilenames = Map.empty\<rparr>,
          empty_world)"
  using Pull_invalid_configuration
    [of "\<lparr>Destination = ''state'', Options = None, S3 = [], StateFilenames = Map.empty\<rparr>"
        env_ok empty_world]
  by (simp add: Verify_def)

subsection \<open>The state decoder: properties\<close>

lemma decode_all_append:
  "decode_all (xs @ ys) out =
     (case decode_all xs out of
        Running out1 \<Rightarrow> decode_all ys out1
      | Returned out1 err \<Rightarrow> Returned out1 err
      | Panicked f \<Rightarrow> Panicked f)"
  by (induction xs out rule: decode_all.induct) (auto split: decoding.splits)

lemma decode_instances_all:
  "decode_instances typ insts out = decode_all (map (Pair typ) insts) out"
  by (induction insts arbitrary: out) (auto split: decoding.splits)

lemma decode_resources_all:
  "decode_resources rs out =
     decode_all (concat (map (\<lambda>r. map (Pair (AddrType r)) (Instances r)) rs)) out"
  by (induction rs arbitrary: out)
     (auto simp: decode_all_append decode_instances_all split: decoding.splits)

lemma decode_modules_all: "decode_modules ms out = decode_all (all_instances ms) out"
  by (induction ms arbitrary: out)
     (auto simp: all_instances_def decode_all_append decode_resources_all split: decoding.splits)

lemma lacks_id_panics:
  "lacks_id inst \<Longrightarrow> decode_instance typ inst out = Panicked InterfaceConversion"
  by (auto simp: lacks_id_def decode_instance_def index_attr_def
           split: option.splits sum.splits)

lemma decode_instance_not_malformed:
  "\<not> malformed inst \<Longrightarrow>
     (\<exists>out1. decode_instance typ inst out = Running out1)
     \<or> decode_instance typ inst out = Panicked InterfaceConversion"
  by (auto simp: malformed_def decode_instance_def split: option.splits sum.splits)

lemma decode_all_not_malformed:
  "\<forall>(typ, inst)\<in>set xs. \<not> malformed inst \<Longrightarrow>
     (\<exists>out1. decode_all xs out = Running out1)
     \<or> decode_all xs out = Panicked InterfaceConversion"
proof (induction xs arbitrary: out)
  case Nil
  then show ?case by simp
next
  case (Cons x xs)
  obtain ty i where x: "x = (ty, i)" by (cases x)
  with Cons.prems have "\<not> malformed i" by simp
  from decode_instance_not_malformed[OF this, of ty out] show ?case
  proof
    assume "\<exists>out1. decode_instance ty i out = Running out1"
    then obtain out1 where "decode_instance ty i out = Running out1" ..
    with Cons.IH[of out1] Cons.prems x show ?thesis by simp
  next
    assume "decode_instance ty i out = Panicked InterfaceConversion"
    with x show ?thesis by simp
  qed
qed

text \<open>
  C4.  The extraction of the identifier from a live instance whose decoded blob has no
  \<open>id\<close> attribute panics on the type assertion; no error is returned.  The decoding of a
  state that holds such an instance panics with that fault when no live instance visited
  before it has a blob that does not decode.
\<close>

theorem missing_id_is_a_fault:
  "(lacks_id inst \<longrightarrow> decode_instance typ inst out = Panicked InterfaceConversion)
   \<and> (read filename = Inr modules
        \<and> all_instances modules = before @ (typ, inst) # after
        \<and> lacks_id inst
        \<and> (\<forall>(typ1, inst1)\<in>set before. \<not> malformed inst1)
      \<longrightarrow> LoadStateFromFile read filename = Panics InterfaceConversion)"
proof (intro conjI impI)
  assume "lacks_id inst"
  then show "decode_instance typ inst out = Panicked InterfaceConversion"
    by (rule lacks_id_panics)
next
  assume a: "read filename = Inr modules
        \<and> all_instances modules = before @ (typ, inst) # after
        \<and> lacks_id inst
        \<and> (\<forall>(typ1, inst1)\<in>set before. \<not> malformed inst1)"
  then have "\<forall>(typ1, inst1)\<in>set before. \<not> malformed inst1" by simp
  from decode_all_not_malformed[OF this, of "[]"]
  have "decode_all (before @ (typ, inst) # after) [] = Panicked InterfaceConversion"
  proof
    assume "\<exists>out1. decode_all before [] = Running out1"
    then obtain out1 where "decode_all before [] = Running out1" ..
    moreover have "decode_instance typ inst out1 = Panicked InterfaceConversion"
      using a by (simp add: lacks_id_panics)
    ultimately show ?thesis by (simp add: decode_all_append)
  next
    assume "decode_all before [] = Panicked InterfaceConversion"
    then show ?thesis by (simp add: decode_all_append)
  qed
  with a show "LoadStateFromFile read filename = Panics InterfaceConversion"
    by (simp add: LoadStateFromFile_def decode_modules_all)
qed

theorem missing_id_is_a_fault_witness:
  "lacks_id (live_instance [(''arn'', JString ''arn:aws:ec2:...:instance/i-9'')])
   \<and> decode_instance ''aws_instance''
        (live_instance [(''arn'', JString ''arn:aws:ec2:...:instance/i-9'')]) []
       = Panicked InterfaceConversion
   \<and> LoadStateFromFile
        (\<lambda>name. Inr (synthetic_state @
           [\<lparr>Resources = [\<lparr>AddrType = ''aws_instance'',
              Instances = [live_instance [(''arn'', JString ''arn:aws:ec2:...:instance/i-9'')]]\<rparr>]\<rparr>]))
        ''terraform.tfstate''
       = Panics InterfaceConversion"
  using missing_id_is_a_fault
    [of "live_instance [(''arn'', JString ''arn:aws:ec2:...:instance/i-9'')]"
        "''aws_instance''" "[]"
        "\<lambda>name. Inr (synthetic_state @
           [\<lparr>Resources = [\<lparr>AddrType = ''aws_instance'',
              Instances = [live_instance [(''arn'', JString ''arn:aws:ec2:...:instance/i-9'')]]\<rparr>]\<rparr>])"
        "''terraform.tfstate''"
        "synthetic_state @
           [\<lparr>Resources = [\<lparr>AddrType = ''aws_instance'',
              Instances = [live_instance [(''arn'', JString ''arn:aws:ec2:...:instance/i-9'')]]\<rparr>]\<rparr>]"
        "all_instances synthetic_state" "[]"]
  by (simp add: lacks_id_def live_instance_def all_instances_def synthetic_state_def malformed_def)

lemma decode_instance_well_formed:
  "well_formed inst \<Longrightarrow> decode_instance typ inst out = Running (out @ retained typ inst)"
  by (auto simp: well_formed_def decode_instance_def retained_def arnless_type_def
           split: option.splits sum.splits jvalue.splits)

lemma decode_all_well_formed:
  "\<forall>(typ, inst)\<in>set xs. well_formed inst \<Longrightarrow>
     decode_all xs out = Running (out @ concat (map (\<lambda>(typ, inst). retained typ inst) xs))"
  by (induction xs arbitrary: out) (auto simp: decode_instance_well_formed)

text \<open>
  When the blob of a live instance does not decode and the instances visited before it are
  well formed, the decoding returns the error of the blob, whatever comes after.
\<close>

lemma malformed_blob_returns_error:
  assumes "read filename = Inr modules"
    and "all_instances modules = before @ (ty, inst) # after"
    and "\<forall>(ty1, inst1)\<in>set before. well_formed inst1"
    and "Current inst = Some current" and "AttrsJSON current = Inl err"
  shows "\<exists>out. LoadStateFromFile read filename = Returns (out, Some err)"
proof -
  have "decode_instance ty inst out = Returned out err" for out
    using assms(4,5) by (simp add: decode_instance_def)
  then have "\<exists>out. decode_all (before @ (ty, inst) # after) [] = Returned out err"
    using decode_all_well_formed[OF assms(3), of "[]"] by (simp add: decode_all_append)
  with assms(1,2) show ?thesis
    by (auto simp: LoadStateFromFile_def decode_modules_all)
qed



subsection \<open>The index\<close>


lemma Load_files_skips_failed:
  "decode_fails read filename \<Longrightarrow>
     Load_files read uid ((filename, s3) # rest) managed = Load_files read uid rest managed"
  by (auto simp: decode_fails_def split: returned.splits option.splits)

lemma Load_files_filter:
  "Load_files read uid es managed =
     Load_files read uid (filter (\<lambda>(filename, s3). \<not> decode_fails read filename) es) managed"
proof (induction es arbitrary: managed)
  case Nil
  then show ?case by simp
next
  case (Cons e es)
  obtain filename s3 where e: "e = (filename, s3)" by (cases e)
  show ?case
  proof (cases "decode_fails read filename")
    case True
    with Cons.IH[of managed] e show ?thesis
      by (simp add: Load_files_skips_failed del: Load_files.simps)
  next
    case False
    with Cons.IH e show ?thesis
      by (auto simp: decode_fails_def split: returned.splits option.splits)
  qed
qed

lemma entries_filter:
  "entries m (filter P order) = filter (\<lambda>(k, v). P k) (entries m order)"
  by (induction order) (auto simp: entries_def split: option.splits)

lemma Load_files_returns:
  "\<forall>(filename, s3)\<in>set es. \<not> decode_faults read filename \<Longrightarrow>
     \<exists>managed1. Load_files read uid es managed = Returns managed1"
proof (induction es arbitrary: managed)
  case Nil
  then show ?case by simp
next
  case (Cons e es)
  then show ?case
    by (cases e) (auto simp: decode_faults_def split: returned.splits option.splits)
qed



text \<open>
  C6.  A file whose decoding fails contributes nothing to the index: the call of
  \<open>Load\<close> gives what it gives when the failing files are left out of the visit, and the
  resources returned beside the error are dropped.  The error \<open>Load\<close> returns is always
  nil, and it returns when no file faults.
\<close>

theorem Load_is_fail_soft:
  "Load read uid order t = Load read uid (filter (\<lambda>filename. \<not> decode_fails read filename) order) t
   \<and> (decode_fails read filename \<longrightarrow>
        Load_files read uid ((filename, s3) # rest) managed = Load_files read uid rest managed)
   \<and> (Load read uid order t = Returns (managed1, err) \<longrightarrow> err = None)
   \<and> ((\<forall>filename\<in>set order. \<not> decode_faults read filename) \<longrightarrow>
        (\<exists>managed2. Load read uid order t = Returns (managed2, None)))"
proof (intro conjI impI)
  show "Load read uid order t
          = Load read uid (filter (\<lambda>filename. \<not> decode_fails read filename) order) t"
    using Load_files_filter[of read uid "entries (StateFilenames t) order" Map.empty]
    by (simp add: Load_def entries_filter)
next
  assume "decode_fails read filename"
  then show "Load_files read uid ((filename, s3) # rest) managed = Load_files read uid rest managed"
    by (rule Load_files_skips_failed)
next
  assume "Load read uid order t = Returns (managed1, err)"
  then show "err = None"
    by (auto simp: Load_def split: returned.splits)
next
  assume a: "\<forall>filename\<in>set order. \<not> decode_faults read filename"
  have "\<forall>(filename, s3)\<in>set (entries (StateFilenames t) order). \<not> decode_faults read filename"
    using a by (auto simp: entries_def map_filter_def)
  from Load_files_returns[OF this, of uid Map.empty]
  show "\<exists>managed2. Load read uid order t = Returns (managed2, None)"
    by (auto simp: Load_def)
qed

lemma three_files_decode:
  "LoadStateFromFile three_files ''state/b/one.tfstate'' = Returns ([\<lparr>ID = ''i-1'', ARN = ''i-1''\<rparr>], None)"
  "LoadStateFromFile three_files ''state/b/two.tfstate''
     = Returns ([\<lparr>ID = ''i-2'', ARN = ''i-2''\<rparr>], Some (Error ''unexpected end of JSON input''))"
  "LoadStateFromFile three_files ''state/b/three.tfstate'' = Returns ([\<lparr>ID = ''i-3'', ARN = ''i-3''\<rparr>], None)"
  by (simp_all add: LoadStateFromFile_def three_files_def one_resource_state_def corrupt_state_def
        live_instance_def decode_instance_def index_attr_def)

theorem Load_is_fail_soft_witness:
  "decode_fails three_files ''state/b/two.tfstate''
   \<and> list_all (\<lambda>filename. \<not> decode_faults three_files filename)
        [''state/b/one.tfstate'', ''state/b/two.tfstate'', ''state/b/three.tfstate'']
   \<and> Load three_files UniqueID
        [''state/b/one.tfstate'', ''state/b/two.tfstate'', ''state/b/three.tfstate''] three_pulled
       = Load three_files UniqueID [''state/b/one.tfstate'', ''state/b/three.tfstate''] three_pulled
   \<and> owner_in (Load three_files UniqueID
        [''state/b/one.tfstate'', ''state/b/two.tfstate'', ''state/b/three.tfstate''] three_pulled) ''i-1''
       = Some ''arn:aws:s3:::b/one.tfstate''
   \<and> owner_in (Load three_files UniqueID
        [''state/b/one.tfstate'', ''state/b/two.tfstate'', ''state/b/three.tfstate''] three_pulled) ''i-2''
       = None
   \<and> owner_in (Load three_files UniqueID
        [''state/b/one.tfstate'', ''state/b/two.tfstate'', ''state/b/three.tfstate''] three_pulled) ''i-3''
       = Some ''arn:aws:s3:::b/three.tfstate''
   \<and> (\<exists>managed. Load three_files UniqueID
        [''state/b/one.tfstate'', ''state/b/two.tfstate'', ''state/b/three.tfstate''] three_pulled
       = Returns (managed, None))"
  using Load_is_fail_soft
    [of three_files UniqueID
        "[''state/b/one.tfstate'', ''state/b/two.tfstate'', ''state/b/three.tfstate'']" three_pulled
        "''state/b/two.tfstate''" "''arn:aws:s3:::b/two.tfstate''" "[]" Map.empty Map.empty None]
  by (simp add: decode_fails_def decode_faults_def three_files_decode Load_def entries_def
        three_pulled_def owner_in_def index_resources_def UniqueID_def)



subsection \<open>Download and Pull: the disk only grows\<close>

lemma os_MkdirAll_grows:
  "os_MkdirAll env w d = (r, w1) \<Longrightarrow>
     files w1 = files w \<and> dirs w \<subseteq> dirs w1 \<and> issued w1 = issued w"
  by (auto simp: os_MkdirAll_def split: if_splits option.splits)

lemma os_OpenFile_grows:
  "os_OpenFile env w name = (r, w1) \<Longrightarrow>
     files w \<subseteq> files w1 \<and> dirs w1 = dirs w \<and> issued w1 = issued w"
  by (auto simp: os_OpenFile_def split: if_splits option.splits)

lemma Download_key_grows:
  assumes "Download_key env b destination options key st w = (r, w1)"
  shows "files w \<subseteq> files w1 \<and> dirs w \<subseteq> dirs w1 \<and> issued w1 = issued w"
proof -
  obtain r0 w0 where m: "os_MkdirAll env w (local_dir destination options (Bucket b) key) = (r0, w0)"
    by (cases "os_MkdirAll env w (local_dir destination options (Bucket b) key)")
  note g0 = os_MkdirAll_grows[OF m]
  obtain r2 w2 where
    p: "os_OpenFile env w0 (local_file destination options (Bucket b) key) = (r2, w2)"
    by (cases "os_OpenFile env w0 (local_file destination options (Bucket b) key)")
  note g2 = os_OpenFile_grows[OF p]
  from assms m p g0 g2 show ?thesis
    by (auto simp: Download_key_def Let_def split: option.splits bool.splits)
qed

lemma Download_keys_grows:
  "Download_keys env b destination options keys st w = (r, w1) \<Longrightarrow>
     files w \<subseteq> files w1 \<and> dirs w \<subseteq> dirs w1 \<and> issued w1 = issued w"
proof (induction keys arbitrary: st w)
  case Nil
  then show ?case by simp
next
  case (Cons key keys)
  obtain r0 w0 where k: "Download_key env b destination options key st w = (r0, w0)"
    by (cases "Download_key env b destination options key st w")
  note g = Download_key_grows[OF k]
  show ?case
  proof (cases r0)
    case (Ok st1)
    with Cons.prems k have "Download_keys env b destination options keys st1 w0 = (r, w1)" by simp
    from Cons.IH[OF this] g show ?thesis by auto
  next
    case (Err err)
    with Cons.prems k g show ?thesis by auto
  next
    case (Panic f)
    with Cons.prems k g show ?thesis by auto
  qed
qed

lemma os_exists_mono:
  "files w \<subseteq> files w1 \<Longrightarrow> dirs w \<subseteq> dirs w1 \<Longrightarrow> os_exists w p \<Longrightarrow> os_exists w1 p"
  by (auto simp: os_exists_def)

lemma Download_grows:
  assumes "Download env backend destination options w = (r, w1)"
  shows "files w \<subseteq> files w1 \<and> dirs w \<subseteq> dirs w1"
proof (cases backend)
  case None
  with assms show ?thesis by (simp add: Download_def)
next
  case (Some b)
  obtain r0 w0 where k: "Download_keys env b destination options (Keys b) (Map.empty, []) w = (r0, w0)"
    by (cases "Download_keys env b destination options (Keys b) (Map.empty, []) w")
  have "files w1 = files w0 \<and> dirs w1 = dirs w0"
    using assms Some k
    by (auto simp: Download_def Let_def split: result.splits if_splits option.splits)
  with Download_keys_grows[OF k] show ?thesis by simp
qed

subsection \<open>Download and Pull: what is recorded\<close>

lemma Download_key_Ok:
  assumes "Download_key env b destination options key st w = (Ok st1, w1)"
  shows "fst st1 = (fst st)(local_file destination options (Bucket b) key \<mapsto> s3_arn (Bucket b) key)
         \<and> (stat_reliable env \<longrightarrow> os_exists w1 (local_file destination options (Bucket b) key))"
  using assms
  by (auto simp: Download_key_def Let_def already_exists_def os_OpenFile_def os_exists_def
                 not_absent_def stat_reliable_def
           split: option.splits bool.splits if_splits prod.splits)

lemma map_add_rev_Cons: "m ++ map_of (rev (kv # kvs)) = m(fst kv \<mapsto> snd kv) ++ map_of (rev kvs)"
  by (cases kv) simp

lemma Download_keys_Ok:
  "Download_keys env b destination options keys st w = (Ok st1, w1) \<Longrightarrow>
     fst st1 = fst st ++ map_of (rev (recorded destination options (map (Pair (Bucket b)) keys)))
     \<and> (stat_reliable env \<longrightarrow> all_fetched w1 destination options (map (Pair (Bucket b)) keys))"
proof (induction keys arbitrary: st w)
  case Nil
  then show ?case by (simp add: recorded_def all_fetched_def)
next
  case (Cons key keys)
  obtain r0 w0 where k: "Download_key env b destination options key st w = (r0, w0)"
    by (cases "Download_key env b destination options key st w")
  with Cons.prems obtain st0 where r0: "r0 = Ok st0"
    by (cases r0) auto
  with Cons.prems k have rest: "Download_keys env b destination options keys st0 w0 = (Ok st1, w1)"
    by simp
  note ih = Cons.IH[OF rest]
  note ok = Download_key_Ok[OF k[unfolded r0]]
  note g = Download_keys_grows[OF rest]
  have "stat_reliable env \<longrightarrow> os_exists w1 (local_file destination options (Bucket b) key)"
    using ok g os_exists_mono by blast
  moreover have "fst st1
      = fst st ++ map_of (rev (recorded destination options (map (Pair (Bucket b)) (key # keys))))"
  proof -
    have "fst st1 = fst st0 ++ map_of (rev (recorded destination options (map (Pair (Bucket b)) keys)))"
      using ih by simp
    also have "fst st0
        = (fst st)(local_file destination options (Bucket b) key \<mapsto> s3_arn (Bucket b) key)"
      using ok by simp
    finally have f: "fst st1
        = (fst st)(local_file destination options (Bucket b) key \<mapsto> s3_arn (Bucket b) key)
            ++ map_of (rev (recorded destination options (map (Pair (Bucket b)) keys)))" .
    have e: "recorded destination options (map (Pair (Bucket b)) (key # keys))
        = (local_file destination options (Bucket b) key, s3_arn (Bucket b) key)
            # recorded destination options (map (Pair (Bucket b)) keys)"
      by (simp add: recorded_def)
    show ?thesis unfolding e map_add_rev_Cons fst_conv snd_conv by (rule f)
  qed
  ultimately show ?case using ih by (simp add: all_fetched_def)
qed

lemma Download_Ok:
  assumes "Download env (Some b) destination options w = (Ok filenames, w1)"
  shows "filenames = map_of (rev (recorded destination options (backend_objects b)))
         \<and> (stat_reliable env \<longrightarrow> all_fetched w1 destination options (backend_objects b))"
proof -
  obtain r0 w0 where k: "Download_keys env b destination options (Keys b) (Map.empty, []) w = (r0, w0)"
    by (cases "Download_keys env b destination options (Keys b) (Map.empty, []) w")
  with assms obtain st0 where r0: "r0 = Ok st0"
    by (cases r0) (auto simp: Download_def)
  note ok = Download_keys_Ok[OF k[unfolded r0]]
  have "files w0 = files w1 \<and> dirs w0 = dirs w1" "filenames = fst st0"
    using assms k r0
    by (auto simp: Download_def Let_def split: if_splits option.splits prod.splits)
  then show ?thesis using ok
    by (simp add: backend_objects_def all_fetched_def os_exists_def)
qed

subsection \<open>Pull: the backends in turn\<close>

lemma all_fetched_mono:
  "files w \<subseteq> files w1 \<Longrightarrow> dirs w \<subseteq> dirs w1 \<Longrightarrow> all_fetched w destination options objects
     \<Longrightarrow> all_fetched w1 destination options objects"
  by (induction objects) (auto simp: all_fetched_def os_exists_def)

lemma all_fetched_append:
  "all_fetched w destination options (xs @ ys)
     = (all_fetched w destination options xs \<and> all_fetched w destination options ys)"
  by (simp add: all_fetched_def)

lemma recorded_append:
  "recorded destination options (xs @ ys)
     = recorded destination options xs @ recorded destination options ys"
  by (simp add: recorded_def)

lemma Pull_backends_fields:
  "Pull_backends env backends t w = (r, t1, w1) \<Longrightarrow>
     Destination t1 = Destination t \<and> Options t1 = Options t \<and> S3 t1 = S3 t
     \<and> files w \<subseteq> files w1 \<and> dirs w \<subseteq> dirs w1"
proof (induction backends arbitrary: t w)
  case Nil
  then show ?case by simp
next
  case (Cons backend rest)
  obtain r0 w0 where d: "Download env backend (Destination t) (Options t) w = (r0, w0)"
    by (cases "Download env backend (Destination t) (Options t) w")
  note g = Download_grows[OF d]
  show ?case
  proof (cases r0)
    case (Ok filenames)
    with Cons.prems d
    have "Pull_backends env rest (t\<lparr>StateFilenames := StateFilenames t ++ filenames\<rparr>) w0 = (r, t1, w1)"
      by simp
    from Cons.IH[OF this] g show ?thesis by auto
  next
    case (Err err)
    with Cons.prems d g show ?thesis by auto
  next
    case (Panic f)
    with Cons.prems d g show ?thesis by auto
  qed
qed

lemma Pull_backends_Ok:
  "Pull_backends env backends t w = (Ok (), t1, w1) \<Longrightarrow>
     StateFilenames t1
       = StateFilenames t
           ++ map_of (rev (recorded (Destination t) (Options t) (configured_objects backends)))
     \<and> (stat_reliable env
          \<longrightarrow> all_fetched w1 (Destination t) (Options t) (configured_objects backends))
     \<and> None \<notin> set backends"
proof (induction backends arbitrary: t w)
  case Nil
  then show ?case by (simp add: configured_objects_def recorded_def all_fetched_def)
next
  case (Cons backend rest)
  obtain r0 w0 where d: "Download env backend (Destination t) (Options t) w = (r0, w0)"
    by (cases "Download env backend (Destination t) (Options t) w")
  with Cons.prems obtain filenames where r0: "r0 = Ok filenames"
    by (cases r0) auto
  from d r0 obtain b where b: "backend = Some b"
    by (cases backend) (auto simp: Download_def)
  let ?t = "t\<lparr>StateFilenames := StateFilenames t ++ filenames\<rparr>"
  from Cons.prems d r0 have rest: "Pull_backends env rest ?t w0 = (Ok (), t1, w1)"
    by simp
  note ih = Cons.IH[OF rest]
  note ok = Download_Ok[OF d[unfolded r0 b]]
  note g = Pull_backends_fields[OF rest]
  have c: "configured_objects (backend # rest) = backend_objects b @ configured_objects rest"
    using b by (simp add: configured_objects_def)
  have "StateFilenames t1
      = (StateFilenames t ++ filenames)
          ++ map_of (rev (recorded (Destination t) (Options t) (configured_objects rest)))"
    using ih by simp
  then have "StateFilenames t1
       = StateFilenames t
           ++ map_of (rev (recorded (Destination t) (Options t) (configured_objects (backend # rest))))"
    unfolding c recorded_append rev_append map_of_append map_add_assoc using ok by simp
  moreover have "stat_reliable env
      \<longrightarrow> all_fetched w1 (Destination t) (Options t) (configured_objects (backend # rest))"
    unfolding c all_fetched_append
    using ok ih g all_fetched_mono[of w0 w1 "Destination t" "Options t" "backend_objects b"] by simp
  moreover have "None \<notin> set (backend # rest)" using ih b by simp
  ultimately show ?case by simp
qed


lemma local_file_default:
  "local_file destination (Some \<lparr>PathSubstitutions = [], Overwrite = ov\<rparr>) bucket key
     = local_file destination None bucket key"
  by (simp add: local_file_def transform_def)

lemma recorded_default:
  "recorded destination (Some \<lparr>PathSubstitutions = [], Overwrite = ov\<rparr>) objects
     = recorded destination None objects"
  by (simp add: recorded_def local_file_default)

lemma recorded_Verify:
  "recorded (Destination t) (Options (snd (Verify t))) objects
     = recorded (Destination t) (Options t) objects"
  by (auto simp: Verify_def recorded_default)

text \<open>
  C3 as amended.  After a pull of a valid configuration that returns without error, the
  map holds one entry for each local file derived from a configured object, and the local
  file is a function of the destination, the options, the bucket and the key.  The entry
  is the remote reference of the object that derives this local file last in the order of
  the configuration: distinct objects may derive the same local file, and then the later
  one overrides the earlier.
\<close>

theorem Pull_records_configured_objects:
  "length (Destination t) \<noteq> 0 \<and> length (S3 t) \<noteq> 0 \<and> Pull env t w = (Ok (), t1, w1) \<longrightarrow>
     StateFilenames t1
       = map_of (rev (recorded (Destination t) (Options t) (configured_objects (S3 t))))
     \<and> dom (StateFilenames t1)
       = (\<lambda>(bucket, key). local_file (Destination t) (Options t) bucket key)
           ` set (configured_objects (S3 t))"
proof
  assume a: "length (Destination t) \<noteq> 0 \<and> length (S3 t) \<noteq> 0 \<and> Pull env t w = (Ok (), t1, w1)"
  then have v: "fst (Verify t) = None" "Destination (snd (Verify t)) = Destination t"
    "S3 (snd (Verify t)) = S3 t"
    by (auto simp: Verify_def)
  with a have "Pull_backends env (S3 t) ((snd (Verify t))\<lparr>StateFilenames := Map.empty\<rparr>) w
      = (Ok (), t1, w1)"
    by (auto simp: Pull_def split: prod.splits option.splits)
  from Pull_backends_Ok[OF this] v
  have s: "StateFilenames t1
       = map_of (rev (recorded (Destination t) (Options t) (configured_objects (S3 t))))"
    by (simp add: recorded_Verify)
  have "dom (StateFilenames t1)
       = (\<lambda>(bucket, key). local_file (Destination t) (Options t) bucket key)
           ` set (configured_objects (S3 t))"
    unfolding s by (force simp: dom_map_of_conv_image_fst recorded_def)
  with s show "StateFilenames t1
       = map_of (rev (recorded (Destination t) (Options t) (configured_objects (S3 t))))
     \<and> dom (StateFilenames t1)
       = (\<lambda>(bucket, key). local_file (Destination t) (Options t) bucket key)
           ` set (configured_objects (S3 t))"
    by simp
qed

lemmas pull_eval = Pull_def Verify_def Download_def Download_key_def os_MkdirAll_def
  os_OpenFile_def os_exists_def not_absent_def already_exists_def local_dir_def local_file_def
  transform_def filepath_Split_def filepath_Join_def filepath_Clean_def made_dirs_def s3_arn_def
  env_ok_def
  empty_world_def backend_of_def Let_def strings_Replace_def replace_from_left.simps

lemma colliding_pulled:
  "Pull env_ok colliding empty_world =
     (Ok (),
      colliding\<lparr>StateFilenames := [''state/b/a_b'' \<mapsto> ''arn:aws:s3:::b/a_b'']\<rparr>,
      \<lparr>files = {''state/b/a_b''}, dirs = {''state'', ''state/b''},
       issued = [(''b'', [(''a/b'', ''state/b/a_b''), (''a_b'', ''state/b/a_b'')])]\<rparr>)"
  by (auto simp: pull_eval colliding_def)

lemma two_pulled:
  "Pull env_ok two_backends empty_world =
     (Ok (),
      two_backends\<lparr>Options := Some \<lparr>PathSubstitutions = [], Overwrite = False\<rparr>,
        StateFilenames :=
          [''state/first/terraform.tfstate'' \<mapsto> ''arn:aws:s3:::first/terraform.tfstate'',
           ''state/second/terraform.tfstate'' \<mapsto> ''arn:aws:s3:::second/terraform.tfstate'']\<rparr>,
      \<lparr>files = {''state/first/terraform.tfstate'', ''state/second/terraform.tfstate''},
       dirs = {''state'', ''state/first'', ''state/second''},
       issued =
         [(''first'', [(''terraform.tfstate'', ''state/first/terraform.tfstate'')]),
          (''second'', [(''terraform.tfstate'', ''state/second/terraform.tfstate'')])]\<rparr>)"
  by (auto simp: pull_eval two_backends_def)

theorem Pull_records_configured_objects_witness:
  "length (Destination colliding) \<noteq> 0 \<and> length (S3 colliding) \<noteq> 0
   \<and> fst (Pull env_ok colliding empty_world) = Ok ()
   \<and> StateFilenames (fst (snd (Pull env_ok colliding empty_world)))
       = map_of (rev (recorded (Destination colliding) (Options colliding)
                        (configured_objects (S3 colliding))))
   \<and> StateFilenames (fst (snd (Pull env_ok colliding empty_world))) ''state/b/a_b''
       = Some ''arn:aws:s3:::b/a_b''"
  using Pull_records_configured_objects
    [of colliding env_ok empty_world
        "colliding\<lparr>StateFilenames := [''state/b/a_b'' \<mapsto> ''arn:aws:s3:::b/a_b'']\<rparr>"
        "\<lparr>files = {''state/b/a_b''}, dirs = {''state'', ''state/b''},
          issued = [(''b'', [(''a/b'', ''state/b/a_b''), (''a_b'', ''state/b/a_b'')])]\<rparr>"]
  by (simp add: colliding_pulled) (simp add: colliding_def)

text \<open>
  C3 as stated fails: two distinct objects of one bucket, both retrieved, derive the same
  local file, and the map keeps one entry for the two.
\<close>

theorem local_paths_collide:
  "(''b'', ''a/b'') \<noteq> (''b'', ''a_b'')
   \<and> local_file (Destination colliding) (Options colliding) ''b'' ''a/b'' = ''state/b/a_b''
   \<and> local_file (Destination colliding) (Options colliding) ''b'' ''a_b'' = ''state/b/a_b''
   \<and> fst (Pull env_ok colliding empty_world) = Ok ()
   \<and> issued (snd (snd (Pull env_ok colliding empty_world)))
       = [(''b'', [(''a/b'', ''state/b/a_b''), (''a_b'', ''state/b/a_b'')])]
   \<and> StateFilenames (fst (snd (Pull env_ok colliding empty_world)))
       = [''state/b/a_b'' \<mapsto> ''arn:aws:s3:::b/a_b'']"
  by (simp add: colliding_pulled)
     (simp add: colliding_def local_file_def transform_def filepath_Split_def filepath_Join_def
        filepath_Clean_def strings_Replace_def replace_from_left.simps)


subsection \<open>Pull stops at the first backend that fails\<close>

lemma Verify_valid:
  "length (Destination t) \<noteq> 0 \<Longrightarrow> length (S3 t) \<noteq> 0 \<Longrightarrow>
     fst (Verify t) = None \<and> Destination (snd (Verify t)) = Destination t
     \<and> S3 (snd (Verify t)) = S3 t \<and> Options (snd (Verify t)) \<noteq> None"
  by (auto simp: Verify_def)

lemma Pull_valid:
  "length (Destination t) \<noteq> 0 \<Longrightarrow> length (S3 t) \<noteq> 0 \<Longrightarrow>
     Pull env t w = Pull_backends env (S3 t) ((snd (Verify t))\<lparr>StateFilenames := Map.empty\<rparr>) w"
  by (auto simp: Pull_def Verify_def)










lemmas download_eval = Download_def Download_key_def os_MkdirAll_def os_OpenFile_def
  os_exists_def not_absent_def already_exists_def local_dir_def local_file_def transform_def
  filepath_Split_def filepath_Join_def filepath_Clean_def made_dirs_def s3_arn_def
  empty_world_def backend_of_def Let_def


text \<open>
  C5 as stated fails: \<^verbatim>\<open>os.Stat\<close> answers an error other than absence for the local
  file of the first backend, the code takes it for presence and skips the key, and the
  fetch of the first backend returns without error with no retrieval.  When the fetch of
  the second backend fails, nothing is on the disk at the local path of the first.
\<close>

theorem earlier_backend_without_file:
  "fst (Download env_stat_fails (Some (backend_of ''first'' [''terraform.tfstate'']))
         ''state'' (Some \<lparr>PathSubstitutions = [], Overwrite = False\<rparr>) empty_world)
     = Ok [''state/first/terraform.tfstate'' \<mapsto> ''arn:aws:s3:::first/terraform.tfstate'']
   \<and> fst (Pull env_stat_fails three_backends empty_world) = Err (Error ''AccessDenied'')
   \<and> local_file (Destination three_backends) (Options three_backends) ''first'' ''terraform.tfstate''
       = ''state/first/terraform.tfstate''
   \<and> \<not> os_exists (snd (snd (Pull env_stat_fails three_backends empty_world)))
          ''state/first/terraform.tfstate''
   \<and> issued (snd (snd (Pull env_stat_fails three_backends empty_world)))
       = [(''second'', [(''terraform.tfstate'', ''state/second/terraform.tfstate'')])]"
  by (auto simp: three_backends_def env_stat_fails_def Pull_def Verify_def download_eval)

subsection \<open>Nil options\<close>

lemma Download_key_nil_options:
  "fst (os_MkdirAll env w (local_dir destination None (Bucket b) key)) = None
   \<Longrightarrow> os_exists w (local_file destination None (Bucket b) key)
   \<Longrightarrow> fst (Download_key env b destination None key st w) = Panic NilOptions"
  by (auto simp: Download_key_def Let_def already_exists_def not_absent_def os_MkdirAll_def
                 os_exists_def
           split: option.splits if_splits prod.splits)

lemma Download_key_nil_options_iff:
  "fst (os_MkdirAll env w (local_dir destination None (Bucket b) key)) = None
   \<Longrightarrow> (fst (Download_key env b destination None key st w) = Panic NilOptions)
       = not_absent env (snd (os_MkdirAll env w (local_dir destination None (Bucket b) key)))
           (local_file destination None (Bucket b) key)"
  by (cases "os_MkdirAll env w (local_dir destination None (Bucket b) key)")
     (auto simp: Download_key_def Let_def already_exists_def os_OpenFile_def
           split: option.splits if_splits prod.splits)

lemma Download_key_absent:
  "\<not> not_absent env (snd (os_MkdirAll env w (local_dir destination options (Bucket b) key)))
       (local_file destination options (Bucket b) key)
   \<Longrightarrow> fst (Download_key env b destination options key st w) \<noteq> Panic f"
  by (auto simp: Download_key_def Let_def already_exists_def
           split: option.splits if_splits prod.splits bool.splits)

lemma Download_key_options_set:
  "options \<noteq> None \<Longrightarrow> fst (Download_key env b destination options key st w) \<noteq> Panic f"
  by (auto simp: Download_key_def Let_def already_exists_def
           split: option.splits if_splits prod.splits bool.splits)

lemma Download_keys_options_set:
  "options \<noteq> None \<Longrightarrow> fst (Download_keys env b destination options keys st w) \<noteq> Panic f"
proof (induction keys arbitrary: st w)
  case Nil
  then show ?case by simp
next
  case (Cons key keys)
  obtain r0 w0 where k: "Download_key env b destination options key st w = (r0, w0)"
    by (cases "Download_key env b destination options key st w")
  with Download_key_options_set[OF Cons.prems, of env b destination key st w]
  have "r0 \<noteq> Panic f" for f by auto
  with Cons.IH[OF Cons.prems] k show ?case
    by (cases r0) auto
qed

lemma Download_options_set:
  "options \<noteq> None \<Longrightarrow> fst (Download env backend destination options w) \<noteq> Panic NilOptions"
proof (cases backend)
  case None
  then show ?thesis by (simp add: Download_def)
next
  case (Some b)
  assume o: "options \<noteq> None"
  obtain r0 w0 where k: "Download_keys env b destination options (Keys b) (Map.empty, []) w = (r0, w0)"
    by (cases "Download_keys env b destination options (Keys b) (Map.empty, []) w")
  with Download_keys_options_set[OF o, of env b destination "Keys b" "(Map.empty, [])" w]
  have "r0 \<noteq> Panic f" for f by auto
  with k Some show ?thesis
    by (cases r0) (auto simp: Download_def Let_def split: option.splits if_splits)
qed

lemma Pull_backends_options_set:
  "Options t \<noteq> None \<Longrightarrow> fst (Pull_backends env backends t w) \<noteq> Panic NilOptions"
proof (induction backends arbitrary: t w)
  case Nil
  then show ?case by simp
next
  case (Cons backend rest)
  obtain r0 w0 where d: "Download env backend (Destination t) (Options t) w = (r0, w0)"
    by (cases "Download env backend (Destination t) (Options t) w")
  with Download_options_set[OF Cons.prems, of env backend "Destination t" w]
  have n: "r0 \<noteq> Panic NilOptions" by auto
  show ?case
  proof (cases r0)
    case (Ok filenames)
    with d Cons.IH[of "t\<lparr>StateFilenames := StateFilenames t ++ filenames\<rparr>" w0] Cons.prems
    show ?thesis by simp
  next
    case (Err err)
    with d show ?thesis by simp
  next
    case (Panic f)
    with d n show ?thesis by simp
  qed
qed

lemma Download_keys_append:
  "Download_keys env b destination options (xs @ ys) st w =
     (case Download_keys env b destination options xs st w of
        (Ok st1, w1) \<Rightarrow> Download_keys env b destination options ys st1 w1
      | (Err err, w1) \<Rightarrow> (Err err, w1)
      | (Panic f, w1) \<Rightarrow> (Panic f, w1))"
  by (induction xs arbitrary: st w) (auto split: prod.splits result.splits)

text \<open>
  C10.  With nil options the substitutions are skipped and the key is unchanged.  The
  body of the loop panics on the nil options when the directory is made and the local
  file is on the disk.  Once the directory is made it panics exactly when the test of
  \<^verbatim>\<open>os.Stat\<close> does not report absence: when the local file is on the disk, and
  also when \<^verbatim>\<open>os.Stat\<close> answers an error other than absence; it does not panic
  when absence is reported.  A call of \<open>Download\<close> with nil options panics as soon as
  its loop reaches a key whose local file exists.  A valid configuration with nil options
  leaves \<open>Verify\<close> with the default options, no substitution and the overwrite flag
  off, and one with options set leaves it unchanged; \<open>Pull\<close> fetches every backend
  with the options \<open>Verify\<close> left, and never panics on nil options.
\<close>

theorem nil_options_fault_on_existing_file:
  "transform None key = key
   \<and> (fst (os_MkdirAll env w (local_dir destination None (Bucket b) key)) = None
        \<and> os_exists w (local_file destination None (Bucket b) key)
      \<longrightarrow> fst (Download_key env b destination None key st w) = Panic NilOptions)
   \<and> (\<not> not_absent env (snd (os_MkdirAll env w (local_dir destination None (Bucket b) key)))
           (local_file destination None (Bucket b) key)
      \<longrightarrow> fst (Download_key env b destination None key st w) \<noteq> Panic NilOptions)
   \<and> (fst (os_MkdirAll env w (local_dir destination None (Bucket b) key)) = None
      \<longrightarrow> (fst (Download_key env b destination None key st w) = Panic NilOptions)
            = (stat_error env (snd (os_MkdirAll env w (local_dir destination None (Bucket b) key)))
                 (local_file destination None (Bucket b) key) \<noteq> None
               \<or> os_exists (snd (os_MkdirAll env w (local_dir destination None (Bucket b) key)))
                   (local_file destination None (Bucket b) key)))
   \<and> (Keys b = before @ key # after
        \<and> Download_keys env b destination None before (Map.empty, []) w0 = (Ok st, w)
        \<and> fst (os_MkdirAll env w (local_dir destination None (Bucket b) key)) = None
        \<and> os_exists w (local_file destination None (Bucket b) key)
      \<longrightarrow> fst (Download env (Some b) destination None w0) = Panic NilOptions)
   \<and> (length (Destination t) \<noteq> 0 \<and> length (S3 t) \<noteq> 0 \<and> Options t = None
      \<longrightarrow> Verify t = (None, t\<lparr>Options := Some \<lparr>PathSubstitutions = [], Overwrite = False\<rparr>\<rparr>))
   \<and> (length (Destination t) \<noteq> 0 \<and> length (S3 t) \<noteq> 0 \<and> Options t \<noteq> None
      \<longrightarrow> Verify t = (None, t))
   \<and> (fst (Verify t) = None \<longrightarrow> Options (snd (Verify t)) \<noteq> None)
   \<and> (fst (Verify t) = None
      \<longrightarrow> Pull env t w
            = Pull_backends env (S3 t) ((snd (Verify t))\<lparr>StateFilenames := Map.empty\<rparr>) w)
   \<and> fst (Pull env t w) \<noteq> Panic NilOptions"
proof (intro conjI)
  show "transform None key = key" by (simp add: transform_def)
next
  show "fst (os_MkdirAll env w (local_dir destination None (Bucket b) key)) = None
        \<and> os_exists w (local_file destination None (Bucket b) key)
      \<longrightarrow> fst (Download_key env b destination None key st w) = Panic NilOptions"
    by (simp add: Download_key_nil_options)
next
  show "\<not> not_absent env (snd (os_MkdirAll env w (local_dir destination None (Bucket b) key)))
           (local_file destination None (Bucket b) key)
      \<longrightarrow> fst (Download_key env b destination None key st w) \<noteq> Panic NilOptions"
    using Download_key_absent by blast
next
  show "fst (os_MkdirAll env w (local_dir destination None (Bucket b) key)) = None
      \<longrightarrow> (fst (Download_key env b destination None key st w) = Panic NilOptions)
            = (stat_error env (snd (os_MkdirAll env w (local_dir destination None (Bucket b) key)))
                 (local_file destination None (Bucket b) key) \<noteq> None
               \<or> os_exists (snd (os_MkdirAll env w (local_dir destination None (Bucket b) key)))
                   (local_file destination None (Bucket b) key))"
    using Download_key_nil_options_iff[of env w destination b key st]
    by (simp add: not_absent_def)
next
  show "Keys b = before @ key # after
        \<and> Download_keys env b destination None before (Map.empty, []) w0 = (Ok st, w)
        \<and> fst (os_MkdirAll env w (local_dir destination None (Bucket b) key)) = None
        \<and> os_exists w (local_file destination None (Bucket b) key)
      \<longrightarrow> fst (Download env (Some b) destination None w0) = Panic NilOptions"
  proof
    assume a: "Keys b = before @ key # after
        \<and> Download_keys env b destination None before (Map.empty, []) w0 = (Ok st, w)
        \<and> fst (os_MkdirAll env w (local_dir destination None (Bucket b) key)) = None
        \<and> os_exists w (local_file destination None (Bucket b) key)"
    then have "fst (Download_key env b destination None key st w) = Panic NilOptions"
      by (simp add: Download_key_nil_options)
    then obtain w1 where "Download_key env b destination None key st w = (Panic NilOptions, w1)"
      by (cases "Download_key env b destination None key st w") auto
    with a have "Download_keys env b destination None (Keys b) (Map.empty, []) w0
        = (Panic NilOptions, w1)"
      by (simp add: Download_keys_append)
    then show "fst (Download env (Some b) destination None w0) = Panic NilOptions"
      by (simp add: Download_def)
  qed
next
  show "length (Destination t) \<noteq> 0 \<and> length (S3 t) \<noteq> 0 \<and> Options t = None
      \<longrightarrow> Verify t = (None, t\<lparr>Options := Some \<lparr>PathSubstitutions = [], Overwrite = False\<rparr>\<rparr>)"
    by (simp add: Verify_def)
next
  show "length (Destination t) \<noteq> 0 \<and> length (S3 t) \<noteq> 0 \<and> Options t \<noteq> None
      \<longrightarrow> Verify t = (None, t)"
    by (simp add: Verify_def)
next
  show "fst (Verify t) = None \<longrightarrow> Options (snd (Verify t)) \<noteq> None"
    by (auto simp: Verify_def split: if_splits)
next
  show "fst (Verify t) = None
      \<longrightarrow> Pull env t w
            = Pull_backends env (S3 t) ((snd (Verify t))\<lparr>StateFilenames := Map.empty\<rparr>) w"
    by (auto simp: Pull_def Verify_def split: if_splits)
next
  show "fst (Pull env t w) \<noteq> Panic NilOptions"
  proof (cases "fst (Verify t)")
    case None
    then have "Options (snd (Verify t)) \<noteq> None"
      by (auto simp: Verify_def split: if_splits)
    then have "Options ((snd (Verify t))\<lparr>StateFilenames := Map.empty\<rparr>) \<noteq> None" by simp
    from Pull_backends_options_set[OF this] None show ?thesis
      by (auto simp: Pull_def split: prod.splits option.splits)
  next
    case (Some err)
    then show ?thesis by (auto simp: Pull_def split: prod.splits)
  qed
qed

theorem nil_options_fault_on_existing_file_witness:
  "os_exists \<lparr>files = {''state/b/k''}, dirs = {''state'', ''state/b''}, issued = []\<rparr>
     (local_file ''state'' None ''b'' ''k'')
   \<and> fst (Download_key env_ok (backend_of ''b'' [''k'']) ''state'' None ''k'' (Map.empty, [])
        \<lparr>files = {''state/b/k''}, dirs = {''state'', ''state/b''}, issued = []\<rparr>)
       = Panic NilOptions
   \<and> fst (Download env_ok (Some (backend_of ''b'' [''k''])) ''state'' None
        \<lparr>files = {''state/b/k''}, dirs = {''state'', ''state/b''}, issued = []\<rparr>)
       = Panic NilOptions
   \<and> fst (Download env_ok (Some (backend_of ''b'' [''k''])) ''state'' None empty_world)
       = Ok [''state/b/k'' \<mapsto> ''arn:aws:s3:::b/k'']
   \<and> Verify \<lparr>Destination = ''state'', Options = None, S3 = [Some (backend_of ''b'' [''k''])],
         StateFilenames = Map.empty\<rparr>
       = (None,
          \<lparr>Destination = ''state'',
           Options = Some \<lparr>PathSubstitutions = [], Overwrite = False\<rparr>,
           S3 = [Some (backend_of ''b'' [''k''])], StateFilenames = Map.empty\<rparr>)
   \<and> Pull env_ok
        \<lparr>Destination = ''state'', Options = None, S3 = [Some (backend_of ''b'' [''k''])],
         StateFilenames = Map.empty\<rparr>
        \<lparr>files = {''state/b/k''}, dirs = {''state'', ''state/b''}, issued = []\<rparr>
       = (Ok (),
          \<lparr>Destination = ''state'',
           Options = Some \<lparr>PathSubstitutions = [], Overwrite = False\<rparr>,
           S3 = [Some (backend_of ''b'' [''k''])],
           StateFilenames = [''state/b/k'' \<mapsto> ''arn:aws:s3:::b/k'']\<rparr>,
          \<lparr>files = {''state/b/k''}, dirs = {''state'', ''state/b''}, issued = []\<rparr>)"
  using nil_options_fault_on_existing_file
    [where key = "''k''" and env = env_ok
       and w = "\<lparr>files = {''state/b/k''}, dirs = {''state'', ''state/b''}, issued = []\<rparr>"
       and destination = "''state''" and b = "backend_of ''b'' [''k'']" and st = "(Map.empty, [])"
       and before = "[]" and after = "[]"
       and ?w0.0 = "\<lparr>files = {''state/b/k''}, dirs = {''state'', ''state/b''}, issued = []\<rparr>"
       and t = "\<lparr>Destination = ''state'', Options = None, S3 = [Some (backend_of ''b'' [''k''])],
         StateFilenames = Map.empty\<rparr>"]
  by (auto simp: pull_eval not_absent_def)

text \<open>
  With nil options and nothing at the local path, \<open>Download\<close> still panics when
  \<^verbatim>\<open>os.Stat\<close> answers an error other than absence.
\<close>

lemma nil_options_fault_on_stat_error:
  "\<not> os_exists empty_world (local_file ''state'' None ''first'' ''terraform.tfstate'')
   \<and> fst (Download env_stat_fails (Some (backend_of ''first'' [''terraform.tfstate'']))
            ''state'' None empty_world)
       = Panic NilOptions"
  by (auto simp: env_stat_fails_def download_eval)

subsection \<open>Pull on a destination that is already fetched\<close>

lemma all_dirs_made_mono:
  "dirs w \<subseteq> dirs w1 \<Longrightarrow> all_dirs_made w destination options objects
     \<Longrightarrow> all_dirs_made w1 destination options objects"
  by (induction objects) (auto simp: all_dirs_made_def)

lemma all_dirs_made_append:
  "all_dirs_made w destination options (xs @ ys)
     = (all_dirs_made w destination options xs \<and> all_dirs_made w destination options ys)"
  by (simp add: all_dirs_made_def)

lemma Download_key_quiet:
  assumes "overwrite_off options"
    and "os_exists w (local_file destination options (Bucket b) key)"
    and "Download_key env b destination options key st w = (r, w1)"
  shows "files w1 = files w \<and> issued w1 = issued w \<and> dirs w \<subseteq> dirs w1
         \<and> (\<forall>st1. r = Ok st1 \<longrightarrow> snd st1 = snd st)"
proof -
  obtain r0 w0 where m: "os_MkdirAll env w (local_dir destination options (Bucket b) key) = (r0, w0)"
    by (cases "os_MkdirAll env w (local_dir destination options (Bucket b) key)")
  note g = os_MkdirAll_grows[OF m]
  have "os_exists w0 (local_file destination options (Bucket b) key)"
    using assms(2) g by (auto simp: os_exists_def)
  with assms m g show ?thesis
    by (auto simp: Download_key_def Let_def already_exists_def not_absent_def overwrite_off_def
             split: option.splits)
qed

lemma Download_keys_quiet:
  "overwrite_off options
   \<Longrightarrow> all_fetched w destination options (map (Pair (Bucket b)) keys)
   \<Longrightarrow> Download_keys env b destination options keys st w = (r, w1)
   \<Longrightarrow> files w1 = files w \<and> issued w1 = issued w \<and> dirs w \<subseteq> dirs w1
       \<and> (\<forall>st1. r = Ok st1 \<longrightarrow> snd st1 = snd st)"
proof (induction keys arbitrary: st w)
  case Nil
  then show ?case by auto
next
  case (Cons key keys)
  obtain r0 w0 where k: "Download_key env b destination options key st w = (r0, w0)"
    by (cases "Download_key env b destination options key st w")
  from Cons.prems(2) have here: "os_exists w (local_file destination options (Bucket b) key)"
    and there: "all_fetched w destination options (map (Pair (Bucket b)) keys)"
    by (simp_all add: all_fetched_def)
  note q = Download_key_quiet[OF Cons.prems(1) here k]
  show ?case
  proof (cases r0)
    case (Ok st0)
    with Cons.prems(3) k have rest: "Download_keys env b destination options keys st0 w0 = (r, w1)"
      by simp
    have "all_fetched w0 destination options (map (Pair (Bucket b)) keys)"
      using there q by (auto intro: all_fetched_mono)
    from Cons.IH[OF Cons.prems(1) this rest] q Ok show ?thesis by auto
  next
    case (Err err)
    with Cons.prems(3) k q show ?thesis by auto
  next
    case (Panic f)
    with Cons.prems(3) k q show ?thesis by auto
  qed
qed

lemma Download_quiet:
  assumes "overwrite_off options"
    and "all_fetched w destination options (configured_objects [backend])"
    and "Download env backend destination options w = (r, w1)"
  shows "files w1 = files w \<and> issued w1 = issued w \<and> dirs w \<subseteq> dirs w1"
proof (cases backend)
  case None
  with assms show ?thesis by (simp add: Download_def)
next
  case (Some b)
  obtain r0 w0 where k: "Download_keys env b destination options (Keys b) (Map.empty, []) w = (r0, w0)"
    by (cases "Download_keys env b destination options (Keys b) (Map.empty, []) w")
  have "all_fetched w destination options (map (Pair (Bucket b)) (Keys b))"
    using assms(2) Some by (simp add: configured_objects_def backend_objects_def)
  note q = Download_keys_quiet[OF assms(1) this k]
  with assms(3) Some k show ?thesis
    by (cases r0) (auto simp: Download_def)
qed

lemma Pull_backends_quiet:
  "overwrite_off (Options t)
   \<Longrightarrow> all_fetched w (Destination t) (Options t) (configured_objects backends)
   \<Longrightarrow> Pull_backends env backends t w = (r, t1, w1)
   \<Longrightarrow> files w1 = files w \<and> issued w1 = issued w"
proof (induction backends arbitrary: t w)
  case Nil
  then show ?case by simp
next
  case (Cons backend rest)
  have c: "configured_objects (backend # rest) = configured_objects [backend] @ configured_objects rest"
    by (simp add: configured_objects_def)
  from Cons.prems(2) have here: "all_fetched w (Destination t) (Options t) (configured_objects [backend])"
    and there: "all_fetched w (Destination t) (Options t) (configured_objects rest)"
    unfolding c all_fetched_append by simp_all
  obtain r0 w0 where d: "Download env backend (Destination t) (Options t) w = (r0, w0)"
    by (cases "Download env backend (Destination t) (Options t) w")
  note q = Download_quiet[OF Cons.prems(1) here d]
  show ?case
  proof (cases r0)
    case (Ok filenames)
    let ?t = "t\<lparr>StateFilenames := StateFilenames t ++ filenames\<rparr>"
    from Cons.prems(3) d Ok have rest: "Pull_backends env rest ?t w0 = (r, t1, w1)" by simp
    have "all_fetched w0 (Destination ?t) (Options ?t) (configured_objects rest)"
      using there q by (auto intro: all_fetched_mono)
    moreover have "overwrite_off (Options ?t)" using Cons.prems(1) by simp
    ultimately show ?thesis using Cons.IH[OF _ _ rest] q by auto
  next
    case (Err err)
    with Cons.prems(3) d q show ?thesis by auto
  next
    case (Panic f)
    with Cons.prems(3) d q show ?thesis by auto
  qed
qed

lemma Download_key_same:
  "overwrite_off options
   \<Longrightarrow> os_exists w (local_file destination options (Bucket b) key)
   \<Longrightarrow> local_dir destination options (Bucket b) key \<in> dirs w
   \<Longrightarrow> Download_key env b destination options key st w
       = (Ok ((fst st)(local_file destination options (Bucket b) key \<mapsto> s3_arn (Bucket b) key),
              snd st), w)"
  by (auto simp: Download_key_def Let_def already_exists_def not_absent_def overwrite_off_def
                 os_MkdirAll_def
           split: option.splits)

lemma Download_keys_same:
  "overwrite_off options
   \<Longrightarrow> all_fetched w destination options (map (Pair (Bucket b)) keys)
   \<Longrightarrow> all_dirs_made w destination options (map (Pair (Bucket b)) keys)
   \<Longrightarrow> Download_keys env b destination options keys st w
       = (Ok (fst st ++ map_of (rev (recorded destination options (map (Pair (Bucket b)) keys))),
              snd st), w)"
proof (induction keys arbitrary: st)
  case Nil
  then show ?case by (simp add: recorded_def)
next
  case (Cons key keys)
  from Cons.prems have here: "os_exists w (local_file destination options (Bucket b) key)"
    "local_dir destination options (Bucket b) key \<in> dirs w"
    and there: "all_fetched w destination options (map (Pair (Bucket b)) keys)"
    "all_dirs_made w destination options (map (Pair (Bucket b)) keys)"
    by (simp_all add: all_fetched_def all_dirs_made_def)
  let ?st = "((fst st)(local_file destination options (Bucket b) key \<mapsto> s3_arn (Bucket b) key), snd st)"
  have e: "recorded destination options (map (Pair (Bucket b)) (key # keys))
        = (local_file destination options (Bucket b) key, s3_arn (Bucket b) key)
            # recorded destination options (map (Pair (Bucket b)) keys)"
    by (simp add: recorded_def)
  have "Download_keys env b destination options (key # keys) st w
      = Download_keys env b destination options keys ?st w"
    using Download_key_same[OF Cons.prems(1) here, of env st] by simp
  also have "\<dots> = (Ok (fst ?st ++ map_of (rev (recorded destination options (map (Pair (Bucket b)) keys))),
              snd ?st), w)"
    by (rule Cons.IH[OF Cons.prems(1) there])
  finally show ?case unfolding e map_add_rev_Cons fst_conv snd_conv .
qed

lemma Download_same:
  assumes "overwrite_off options"
    and "all_fetched w destination options (backend_objects b)"
    and "all_dirs_made w destination options (backend_objects b)"
  shows "Download env (Some b) destination options w
           = (Ok (map_of (rev (recorded destination options (backend_objects b)))), w)"
  using Download_keys_same[OF assms(1), of w destination b "Keys b" env "(Map.empty, [])"] assms(2,3)
  by (simp add: Download_def backend_objects_def)

lemma Pull_backends_same:
  "overwrite_off (Options t)
   \<Longrightarrow> None \<notin> set backends
   \<Longrightarrow> all_fetched w (Destination t) (Options t) (configured_objects backends)
   \<Longrightarrow> all_dirs_made w (Destination t) (Options t) (configured_objects backends)
   \<Longrightarrow> Pull_backends env backends t w
       = (Ok (),
          t\<lparr>StateFilenames :=
              StateFilenames t
                ++ map_of (rev (recorded (Destination t) (Options t) (configured_objects backends)))\<rparr>,
          w)"
proof (induction backends arbitrary: t)
  case Nil
  then show ?case by (simp add: configured_objects_def recorded_def)
next
  case (Cons backend rest)
  from Cons.prems(2) obtain b where b: "backend = Some b" by (cases backend) auto
  have c: "configured_objects (backend # rest) = backend_objects b @ configured_objects rest"
    using b by (simp add: configured_objects_def)
  from Cons.prems(3,4) have here: "all_fetched w (Destination t) (Options t) (backend_objects b)"
    "all_dirs_made w (Destination t) (Options t) (backend_objects b)"
    and there: "all_fetched w (Destination t) (Options t) (configured_objects rest)"
    "all_dirs_made w (Destination t) (Options t) (configured_objects rest)"
    unfolding c all_fetched_append all_dirs_made_append by simp_all
  let ?m = "map_of (rev (recorded (Destination t) (Options t) (backend_objects b)))"
  let ?t = "t\<lparr>StateFilenames := StateFilenames t ++ ?m\<rparr>"
  have "Pull_backends env (backend # rest) t w = Pull_backends env rest ?t w"
    using Download_same[OF Cons.prems(1) here, of env] b by simp
  also have "\<dots> = (Ok (),
          ?t\<lparr>StateFilenames :=
              StateFilenames ?t
                ++ map_of (rev (recorded (Destination ?t) (Options ?t) (configured_objects rest)))\<rparr>,
          w)"
    using Cons.prems(1,2) there by (intro Cons.IH) simp_all
  finally show ?case
    unfolding c recorded_append rev_append map_of_append by simp
qed

lemma Download_key_Ok_dir:
  assumes "Download_key env b destination options key st w = (Ok st1, w1)"
  shows "local_dir destination options (Bucket b) key \<in> dirs w1"
proof -
  obtain r0 w0 where m: "os_MkdirAll env w (local_dir destination options (Bucket b) key) = (r0, w0)"
    by (cases "os_MkdirAll env w (local_dir destination options (Bucket b) key)")
  with assms have r0: "r0 = None"
    by (cases r0) (auto simp: Download_key_def)
  have in0: "local_dir destination options (Bucket b) key \<in> dirs w0"
    using m r0 by (auto simp: os_MkdirAll_def made_dirs_def split: if_splits option.splits)
  obtain r2 w2 where
    p: "os_OpenFile env w0 (local_file destination options (Bucket b) key) = (r2, w2)"
    by (cases "os_OpenFile env w0 (local_file destination options (Bucket b) key)")
  note g2 = os_OpenFile_grows[OF p]
  from assms m r0 p g2 in0 show ?thesis
    by (auto simp: Download_key_def Let_def split: option.splits bool.splits)
qed

lemma Download_keys_Ok_dirs:
  "Download_keys env b destination options keys st w = (Ok st1, w1) \<Longrightarrow>
     all_dirs_made w1 destination options (map (Pair (Bucket b)) keys)"
proof (induction keys arbitrary: st w)
  case Nil
  then show ?case by (simp add: all_dirs_made_def)
next
  case (Cons key keys)
  obtain r0 w0 where k: "Download_key env b destination options key st w = (r0, w0)"
    by (cases "Download_key env b destination options key st w")
  with Cons.prems obtain st0 where r0: "r0 = Ok st0"
    by (cases r0) auto
  with Cons.prems k have rest: "Download_keys env b destination options keys st0 w0 = (Ok st1, w1)"
    by simp
  note ih = Cons.IH[OF rest]
  note g = Download_keys_grows[OF rest]
  have "local_dir destination options (Bucket b) key \<in> dirs w1"
    using Download_key_Ok_dir[OF k[unfolded r0]] g by auto
  with ih show ?case by (simp add: all_dirs_made_def)
qed

lemma Download_Ok_dirs:
  assumes "Download env (Some b) destination options w = (Ok filenames, w1)"
  shows "all_dirs_made w1 destination options (backend_objects b)"
proof -
  obtain r0 w0 where k: "Download_keys env b destination options (Keys b) (Map.empty, []) w = (r0, w0)"
    by (cases "Download_keys env b destination options (Keys b) (Map.empty, []) w")
  with assms obtain st0 where r0: "r0 = Ok st0"
    by (cases r0) (auto simp: Download_def)
  note ok = Download_keys_Ok_dirs[OF k[unfolded r0]]
  have "dirs w0 = dirs w1"
    using assms k r0
    by (auto simp: Download_def Let_def split: if_splits option.splits prod.splits)
  then show ?thesis using ok
    by (simp add: backend_objects_def all_dirs_made_def)
qed

lemma Pull_backends_Ok_dirs:
  "Pull_backends env backends t w = (Ok (), t1, w1) \<Longrightarrow>
     all_dirs_made w1 (Destination t) (Options t) (configured_objects backends)"
proof (induction backends arbitrary: t w)
  case Nil
  then show ?case by (simp add: configured_objects_def all_dirs_made_def)
next
  case (Cons backend rest)
  obtain r0 w0 where d: "Download env backend (Destination t) (Options t) w = (r0, w0)"
    by (cases "Download env backend (Destination t) (Options t) w")
  with Cons.prems obtain filenames where r0: "r0 = Ok filenames"
    by (cases r0) auto
  from d r0 obtain b where b: "backend = Some b"
    by (cases backend) (auto simp: Download_def)
  let ?t = "t\<lparr>StateFilenames := StateFilenames t ++ filenames\<rparr>"
  from Cons.prems d r0 have rest: "Pull_backends env rest ?t w0 = (Ok (), t1, w1)"
    by simp
  note ih = Cons.IH[OF rest]
  note ok = Download_Ok_dirs[OF d[unfolded r0 b]]
  note g = Pull_backends_fields[OF rest]
  have c: "configured_objects (backend # rest) = backend_objects b @ configured_objects rest"
    using b by (simp add: configured_objects_def)
  show ?case
    unfolding c all_dirs_made_append
    using ok ih g all_dirs_made_mono[of w0 w1 "Destination t" "Options t" "backend_objects b"]
    by simp
qed

lemma effective_overwrite_Verify:
  "\<not> effective_overwrite t \<Longrightarrow> fst (Verify t) = None \<Longrightarrow> overwrite_off (Options (snd (Verify t)))"
  by (auto simp: effective_overwrite_def Verify_def overwrite_off_def split: if_splits option.splits)

lemma all_fetched_Verify:
  "all_fetched w (Destination t) (Options (snd (Verify t))) objects
     = all_fetched w (Destination t) (Options t) objects"
  by (auto simp: Verify_def all_fetched_def local_file_default)

lemma local_dir_default:
  "local_dir destination (Some \<lparr>PathSubstitutions = [], Overwrite = ov\<rparr>) bucket key
     = local_dir destination None bucket key"
  by (simp add: local_dir_def transform_def)

lemma all_dirs_made_Verify:
  "all_dirs_made w (Destination t) (Options (snd (Verify t))) objects
     = all_dirs_made w (Destination t) (Options t) objects"
  by (auto simp: Verify_def all_dirs_made_def local_dir_default)

lemma Pull_quiet:
  assumes "\<not> effective_overwrite t"
    and "all_fetched w (Destination t) (Options t) (configured_objects (S3 t))"
  shows "issued (snd (snd (Pull env t w))) = issued w \<and> files (snd (snd (Pull env t w))) = files w"
proof (cases "fst (Verify t)")
  case (Some err)
  then show ?thesis by (auto simp: Pull_def split: prod.splits)
next
  case None
  let ?v = "(snd (Verify t))\<lparr>StateFilenames := Map.empty\<rparr>"
  have v: "Destination ?v = Destination t" "S3 ?v = S3 t" "Options ?v = Options (snd (Verify t))"
    by (auto simp: Verify_def)
  have p: "Pull env t w = Pull_backends env (S3 t) ?v w"
    using None v by (auto simp: Pull_def split: prod.splits)
  obtain r t1 w1 where b: "Pull_backends env (S3 t) ?v w = (r, t1, w1)"
    by (cases "Pull_backends env (S3 t) ?v w") auto
  have "overwrite_off (Options ?v)"
    using effective_overwrite_Verify[OF assms(1) None] v by simp
  moreover have "all_fetched w (Destination ?v) (Options ?v) (configured_objects (S3 t))"
    using assms(2) v by (simp add: all_fetched_Verify)
  ultimately have "files w1 = files w \<and> issued w1 = issued w"
    using b by (rule Pull_backends_quiet)
  with p b show ?thesis by simp
qed

lemma Pull_same:
  assumes "\<not> effective_overwrite t"
    and "length (Destination t) \<noteq> 0" and "length (S3 t) \<noteq> 0" and "None \<notin> set (S3 t)"
    and "all_fetched w (Destination t) (Options t) (configured_objects (S3 t))"
    and "all_dirs_made w (Destination t) (Options t) (configured_objects (S3 t))"
  shows "Pull env t w
           = (Ok (),
              (snd (Verify t))\<lparr>StateFilenames :=
                 map_of (rev (recorded (Destination t) (Options t) (configured_objects (S3 t))))\<rparr>,
              w)"
proof -
  let ?v = "(snd (Verify t))\<lparr>StateFilenames := Map.empty\<rparr>"
  note vv = Verify_valid[OF assms(2,3)]
  have v: "Destination ?v = Destination t" "S3 ?v = S3 t" "Options ?v = Options (snd (Verify t))"
    using vv by simp_all
  have "overwrite_off (Options ?v)"
    using effective_overwrite_Verify[OF assms(1)] vv v by simp
  moreover have "all_fetched w (Destination ?v) (Options ?v) (configured_objects (S3 t))"
    using assms(5) v by (simp add: all_fetched_Verify)
  moreover have "all_dirs_made w (Destination ?v) (Options ?v) (configured_objects (S3 t))"
    using assms(6) v by (simp add: all_dirs_made_Verify)
  ultimately have "Pull_backends env (S3 t) ?v w
       = (Ok (),
          ?v\<lparr>StateFilenames :=
              StateFilenames ?v
                ++ map_of (rev (recorded (Destination ?v) (Options ?v) (configured_objects (S3 t))))\<rparr>,
          w)"
    using assms(4) by (intro Pull_backends_same) simp_all
  then show ?thesis
    using v by (simp add: Pull_valid[OF assms(2,3)] recorded_Verify)
qed

text \<open>
  C8.  With the overwrite flag off, a pull on a world where the local file of every
  configured object exists issues no retrieval and opens no file, whatever the environment
  answers.  When moreover the configuration is valid and the local directories exist, it
  returns without error, leaves the world as it is and records the whole map.  So a second
  pull, in any environment, after one that returned without error in an environment where
  \<^verbatim>\<open>os.Stat\<close> answers no error other than absence, issues no retrieval and records
  the same map.
\<close>

theorem Pull_again_retrieves_nothing:
  "(\<not> effective_overwrite t
      \<and> all_fetched w (Destination t) (Options t) (configured_objects (S3 t))
    \<longrightarrow> issued (snd (snd (Pull env t w))) = issued w
        \<and> files (snd (snd (Pull env t w))) = files w)
   \<and> (\<not> effective_overwrite t
        \<and> all_fetched w (Destination t) (Options t) (configured_objects (S3 t))
        \<and> length (Destination t) \<noteq> 0 \<and> length (S3 t) \<noteq> 0 \<and> None \<notin> set (S3 t)
        \<and> all_dirs_made w (Destination t) (Options t) (configured_objects (S3 t))
      \<longrightarrow> Pull env t w
            = (Ok (),
               (snd (Verify t))\<lparr>StateFilenames :=
                  map_of (rev (recorded (Destination t) (Options t) (configured_objects (S3 t))))\<rparr>,
               w))
   \<and> (\<not> effective_overwrite t
        \<and> length (Destination t) \<noteq> 0 \<and> length (S3 t) \<noteq> 0
        \<and> stat_reliable env
        \<and> Pull env t w = (Ok (), t1, w1)
      \<longrightarrow> Pull env1 t1 w1 = (Ok (), t1, w1))"
proof (intro conjI)
  show "\<not> effective_overwrite t
      \<and> all_fetched w (Destination t) (Options t) (configured_objects (S3 t))
    \<longrightarrow> issued (snd (snd (Pull env t w))) = issued w
        \<and> files (snd (snd (Pull env t w))) = files w"
    by (simp add: Pull_quiet)
next
  show "\<not> effective_overwrite t
        \<and> all_fetched w (Destination t) (Options t) (configured_objects (S3 t))
        \<and> length (Destination t) \<noteq> 0 \<and> length (S3 t) \<noteq> 0 \<and> None \<notin> set (S3 t)
        \<and> all_dirs_made w (Destination t) (Options t) (configured_objects (S3 t))
      \<longrightarrow> Pull env t w
            = (Ok (),
               (snd (Verify t))\<lparr>StateFilenames :=
                  map_of (rev (recorded (Destination t) (Options t) (configured_objects (S3 t))))\<rparr>,
               w)"
  proof
  assume "\<not> effective_overwrite t
        \<and> all_fetched w (Destination t) (Options t) (configured_objects (S3 t))
        \<and> length (Destination t) \<noteq> 0 \<and> length (S3 t) \<noteq> 0 \<and> None \<notin> set (S3 t)
        \<and> all_dirs_made w (Destination t) (Options t) (configured_objects (S3 t))"
  then show "Pull env t w
            = (Ok (),
               (snd (Verify t))\<lparr>StateFilenames :=
                  map_of (rev (recorded (Destination t) (Options t) (configured_objects (S3 t))))\<rparr>,
               w)"
    by (intro Pull_same) simp_all
  qed
next
  show "\<not> effective_overwrite t
        \<and> length (Destination t) \<noteq> 0 \<and> length (S3 t) \<noteq> 0
        \<and> stat_reliable env
        \<and> Pull env t w = (Ok (), t1, w1)
      \<longrightarrow> Pull env1 t1 w1 = (Ok (), t1, w1)"
  proof
  assume a: "\<not> effective_overwrite t
        \<and> length (Destination t) \<noteq> 0 \<and> length (S3 t) \<noteq> 0
        \<and> stat_reliable env
        \<and> Pull env t w = (Ok (), t1, w1)"
  let ?v = "(snd (Verify t))\<lparr>StateFilenames := Map.empty\<rparr>"
  from a have d: "length (Destination t) \<noteq> 0" and s: "length (S3 t) \<noteq> 0"
    and sr: "stat_reliable env" by simp_all
  note vv = Verify_valid[OF d s]
  from a have b: "Pull_backends env (S3 t) ?v w = (Ok (), t1, w1)"
    by (simp add: Pull_valid[OF d s])
  note f = Pull_backends_fields[OF b]
  note ok = Pull_backends_Ok[OF b]
  note dm = Pull_backends_Ok_dirs[OF b]
  have t1: "Destination t1 = Destination t" "S3 t1 = S3 t" "Options t1 = Options (snd (Verify t))"
    using f vv by simp_all
  have o1: "Options t1 \<noteq> None" using t1 vv by simp
  have v1: "snd (Verify t1) = t1"
    using t1 d s o1 by (auto simp: Verify_def)
  have e1: "\<not> effective_overwrite t1"
    using a t1 by (auto simp: effective_overwrite_def Verify_def split: option.splits if_splits)
  have "Pull env1 t1 w1
      = (Ok (),
         (snd (Verify t1))\<lparr>StateFilenames :=
            map_of (rev (recorded (Destination t1) (Options t1) (configured_objects (S3 t1))))\<rparr>,
         w1)"
  proof (rule Pull_same[OF e1])
    show "length (Destination t1) \<noteq> 0" "length (S3 t1) \<noteq> 0" using t1 d s by simp_all
    show "None \<notin> set (S3 t1)" using ok t1 by simp
    show "all_fetched w1 (Destination t1) (Options t1) (configured_objects (S3 t1))"
      using ok sr t1 vv by simp
    show "all_dirs_made w1 (Destination t1) (Options t1) (configured_objects (S3 t1))"
      using dm t1 vv by simp
  qed
  moreover have "StateFilenames t1
      = map_of (rev (recorded (Destination t1) (Options t1) (configured_objects (S3 t1))))"
    using ok t1 vv by simp
  ultimately show "Pull env1 t1 w1 = (Ok (), t1, w1)"
    using v1 by simp
  qed
qed

theorem Pull_again_retrieves_nothing_witness:
  "\<not> effective_overwrite two_backends
   \<and> length (Destination two_backends) \<noteq> 0 \<and> length (S3 two_backends) \<noteq> 0
   \<and> stat_reliable env_ok
   \<and> fst (Pull env_ok two_backends empty_world) = Ok ()
   \<and> Pull env_second_fails (fst (snd (Pull env_ok two_backends empty_world)))
        (snd (snd (Pull env_ok two_backends empty_world)))
       = (Ok (), snd (Pull env_ok two_backends empty_world))
   \<and> issued (snd (snd (Pull env_second_fails (fst (snd (Pull env_ok two_backends empty_world)))
        (snd (snd (Pull env_ok two_backends empty_world))))))
       = [(''first'', [(''terraform.tfstate'', ''state/first/terraform.tfstate'')]),
          (''second'', [(''terraform.tfstate'', ''state/second/terraform.tfstate'')])]"
proof -
  have e: "\<not> effective_overwrite two_backends"
    by (simp add: effective_overwrite_def two_backends_def)
  have d: "length (Destination two_backends) \<noteq> 0 \<and> length (S3 two_backends) \<noteq> 0"
    by (simp add: two_backends_def)
  have sr: "stat_reliable env_ok"
    by (simp add: stat_reliable_def env_ok_def)
  let ?t1 = "fst (snd (Pull env_ok two_backends empty_world))"
  let ?w1 = "snd (snd (Pull env_ok two_backends empty_world))"
  have p: "Pull env_ok two_backends empty_world = (Ok (), ?t1, ?w1)"
    by (simp add: two_pulled)
  from Pull_again_retrieves_nothing[of two_backends empty_world env_ok ?t1 ?w1 env_second_fails]
    e d sr p
  have q: "Pull env_second_fails ?t1 ?w1 = (Ok (), ?t1, ?w1)" by blast
  have i: "issued ?w1
       = [(''first'', [(''terraform.tfstate'', ''state/first/terraform.tfstate'')]),
          (''second'', [(''terraform.tfstate'', ''state/second/terraform.tfstate'')])]"
    by (simp add: two_pulled)
  from e d sr q i show ?thesis by (simp add: two_pulled)
qed

text \<open>
  The first pull has to be one where \<^verbatim>\<open>os.Stat\<close> answers no error other than
  absence: when it answers one for the local file of an object, that object is skipped, the
  pull returns without error and leaves no file, and a second pull retrieves the object.
\<close>

lemma second_pull_after_stat_error:
  "Pull env_stat_fails
      (two_backends\<lparr>S3 := [Some (backend_of ''first'' [''terraform.tfstate''])]\<rparr>) empty_world
     = (Ok (),
        \<lparr>Destination = ''state'',
         Options = Some \<lparr>PathSubstitutions = [], Overwrite = False\<rparr>,
         S3 = [Some (backend_of ''first'' [''terraform.tfstate''])],
         StateFilenames =
           [''state/first/terraform.tfstate'' \<mapsto> ''arn:aws:s3:::first/terraform.tfstate'']\<rparr>,
        \<lparr>files = {}, dirs = {''state'', ''state/first''}, issued = []\<rparr>)
   \<and> issued (snd (snd (Pull env_ok
        \<lparr>Destination = ''state'',
         Options = Some \<lparr>PathSubstitutions = [], Overwrite = False\<rparr>,
         S3 = [Some (backend_of ''first'' [''terraform.tfstate''])],
         StateFilenames =
           [''state/first/terraform.tfstate'' \<mapsto> ''arn:aws:s3:::first/terraform.tfstate'']\<rparr>
        \<lparr>files = {}, dirs = {''state'', ''state/first''}, issued = []\<rparr>)))
     = [(''first'', [(''terraform.tfstate'', ''state/first/terraform.tfstate'')])]"
  by (auto simp: pull_eval env_stat_fails_def two_backends_def)

end
